theory Spec2Isabelle
  imports Complex_Main "HOL-Library.Word" "HOL-Library.Multiset"
begin

section \<open>Numbers and exceptions of the Python source\<close>

text \<open>
  The scheduler of \<^verbatim>\<open>spaced_repetition.py\<close> computes with Python floats, which are IEEE
  binary64 doubles. Inside \<^verbatim>\<open>next_interval\<close>, whose claims are about the integer it returns
  and the exceptions it raises, every intermediate result is the double the machine
  computes: rounded to nearest with ties to even, with the two infinities and NaN (next
  section); the power of the C library is taken as correctly rounded. Everywhere else a
  float is a real number and an operation gives its exact value, so the rounding error
  there is outside this development. Python integers are \<open>int\<close>. Every exception the
  modelled code raises is a value of \<open>error\<close>.
\<close>

datatype error =
    AttributeError
  | KeyError
  | TypeError
  | ValueError
  | ZeroDivisionError
  | OverflowError
  | UnicodeDecodeError
  | JSONDecodeError
  | RecursionError

text \<open>
  The largest double is \<open>2 ^ 1024 - 2 ^ 971\<close>; a value of at least
  \<open>2 ^ 1024 - 2 ^ 970\<close> rounds to infinity.
\<close>

definition overflow_threshold :: real where
  "overflow_threshold = 2 ^ 1024 - 2 ^ 970"

text \<open>
  \<^verbatim>\<open>x ** y\<close> on floats, before the rounding of its result: a zero base with a negative
  exponent raises ZeroDivisionError; a result that overflows raises OverflowError; a
  negative base with a non-integral exponent yields a complex number. No path of this
  program uses the value of a complex number (\<^verbatim>\<open>math.exp\<close> and \<^verbatim>\<open>round\<close> reject it with
  TypeError), so a complex result is \<open>None\<close> and a float \<open>x\<close> is \<open>Some x\<close>.
\<close>

definition float_pow :: "real \<Rightarrow> real \<Rightarrow> error + real option" where
  "float_pow x y =
     (if x = 0 then
        (if y < 0 then Inl ZeroDivisionError else if y = 0 then Inr (Some 1) else Inr (Some 0))
      else if overflow_threshold \<le> \<bar>x\<bar> powr y then Inl OverflowError
      else if 0 < x then Inr (Some (x powr y))
      else if y \<in> \<int> then
        Inr (Some (if even \<lfloor>y\<rfloor> then \<bar>x\<bar> powr y else - (\<bar>x\<bar> powr y)))
      else Inr None)"

text \<open>
  \<^verbatim>\<open>math.pow(x, y)\<close>: a zero base with a negative exponent, and a negative base with a
  non-integral exponent, raise ValueError.
\<close>

definition math_pow :: "real \<Rightarrow> real \<Rightarrow> error + real" where
  "math_pow x y =
     (if 0 < x then Inr (x powr y)
      else if x = 0 then
        (if y < 0 then Inl ValueError else if y = 0 then Inr 1 else Inr 0)
      else if y \<in> \<int> then
        Inr (if even \<lfloor>y\<rfloor> then \<bar>x\<bar> powr y else - (\<bar>x\<bar> powr y))
      else Inl ValueError)"

text \<open>
  \<^verbatim>\<open>x / y\<close> on floats, before the rounding of its result: a zero divisor raises
  ZeroDivisionError.
\<close>

definition float_div :: "real \<Rightarrow> real \<Rightarrow> error + real" where
  "float_div x y = (if y = 0 then Inl ZeroDivisionError else Inr (x / y))"

text \<open>
  \<^verbatim>\<open>round(x)\<close> with one argument returns an integer and rounds a tie to the even
  neighbour.
\<close>

definition py_round :: "real \<Rightarrow> int" where
  "py_round x =
     (let f = \<lfloor>x\<rfloor>; d = x - of_int f
      in if d < 1 / 2 then f
         else if 1 / 2 < d then f + 1
         else if even f then f else f + 1)"

section \<open>Doubles\<close>

text \<open>
  A double is a finite real, an infinity or NaN; the sign of a zero is left out, since no
  result of this program depends on it. A finite double is an integer multiple of the
  unit of its binade, of less than 53 bits: the binade of \<open>x\<close> is the exponent of the
  largest power of two not above \<open>\<bar>x\<bar>\<close>, and not below \<open>-1022\<close>, where the subnormal
  numbers begin. \<open>nearest x\<close> is the multiple nearest to \<open>x\<close>, the even one at a tie, and
  \<open>rd x\<close> is the double an operation with the exact result \<open>x\<close> returns: infinite when
  the nearest multiple is beyond the largest double.
\<close>

datatype pyfloat = Finite real | PInf | NInf | NaN

definition binade :: "real \<Rightarrow> int" where
  "binade x = max \<lfloor>log 2 \<bar>x\<bar>\<rfloor> (- 1022)"

definition ulp :: "real \<Rightarrow> real" where
  "ulp x = 2 powr of_int (binade x - 52)"

definition nearest :: "real \<Rightarrow> real" where
  "nearest x = of_int (py_round (x / ulp x)) * ulp x"

definition rd :: "real \<Rightarrow> pyfloat" where
  "rd x =
     (if 2 ^ 1024 \<le> \<bar>nearest x\<bar> then (if 0 < x then PInf else NInf)
      else Finite (nearest x))"

text \<open>Negation, addition, subtraction and multiplication of doubles; none raises.\<close>

fun fl_neg :: "pyfloat \<Rightarrow> pyfloat" where
  "fl_neg (Finite x) = Finite (- x)"
| "fl_neg PInf = NInf"
| "fl_neg NInf = PInf"
| "fl_neg NaN = NaN"

fun fl_add :: "pyfloat \<Rightarrow> pyfloat \<Rightarrow> pyfloat" where
  "fl_add (Finite x) (Finite y) = rd (x + y)"
| "fl_add NaN b = NaN"
| "fl_add a NaN = NaN"
| "fl_add PInf NInf = NaN"
| "fl_add NInf PInf = NaN"
| "fl_add PInf b = PInf"
| "fl_add NInf b = NInf"
| "fl_add a PInf = PInf"
| "fl_add a NInf = NInf"

definition fl_sub :: "pyfloat \<Rightarrow> pyfloat \<Rightarrow> pyfloat" where
  "fl_sub a b = fl_add a (fl_neg b)"

fun fl_mul :: "pyfloat \<Rightarrow> pyfloat \<Rightarrow> pyfloat" where
  "fl_mul (Finite x) (Finite y) = rd (x * y)"
| "fl_mul NaN b = NaN"
| "fl_mul a NaN = NaN"
| "fl_mul PInf (Finite y) = (if y = 0 then NaN else if 0 < y then PInf else NInf)"
| "fl_mul NInf (Finite y) = (if y = 0 then NaN else if 0 < y then NInf else PInf)"
| "fl_mul (Finite x) PInf = (if x = 0 then NaN else if 0 < x then PInf else NInf)"
| "fl_mul (Finite x) NInf = (if x = 0 then NaN else if 0 < x then NInf else PInf)"
| "fl_mul PInf PInf = PInf"
| "fl_mul NInf NInf = PInf"
| "fl_mul PInf NInf = NInf"
| "fl_mul NInf PInf = NInf"

section \<open>The memory model: class FSRS\<close>

definition w :: "real list" where
  "w = [2.5, 2.6, 2.3, 2.8, 3.0, 0.8, 0.7, 0.5, 0.1, 0.1,
        0.1, 1.0, 0.5, 0.5, 1.0, 0.6, 1.2, 0.5, 0.7, 1.3]"

definition interval_cap :: int where
  "interval_cap = 365"

definition maximum_interval :: int where
  "maximum_interval = interval_cap"

text \<open>
  \<^verbatim>\<open>self.DECAY = -0.4\<close> and \<^verbatim>\<open>self.FACTOR = 0.9 ** (1 / self.DECAY) - 1\<close>: the doubles of
  the literals, and each operation rounded to a double. None of them leaves the range of
  the doubles, so \<open>nearest\<close> gives their values (\<open>DECAY_eq\<close>, \<open>inv_DECAY\<close> and
  \<open>FACTOR_eq\<close> below).
\<close>

definition DECAY :: real where
  "DECAY = nearest (- 0.4)"

definition FACTOR :: real where
  "FACTOR = nearest (nearest (nearest 0.9 powr nearest (1 / DECAY)) - 1)"

text \<open>\<^verbatim>\<open>(1 + FACTOR * elapsed_days / stability) ** DECAY\<close>, over the reals.\<close>

definition forgetting_curve :: "real \<Rightarrow> real \<Rightarrow> error + real option" where
  "forgetting_curve elapsed_days stability =
     (case float_div (FACTOR * elapsed_days) stability of
        Inl e \<Rightarrow> Inl e
      | Inr q \<Rightarrow> float_pow (1 + q) DECAY)"

text \<open>
  \<^verbatim>\<open>new_interval = stability / FACTOR * (retention_factor ** (1 / DECAY) - 1)\<close>, then
  \<^verbatim>\<open>min(max(round(new_interval), 1), maximum_interval)\<close>. \<open>raw_interval\<close> is the
  method's local \<^verbatim>\<open>new_interval\<close> (its first line), \<open>next_interval\<close> the whole method.
  The quotient, the power, the difference and the product are doubles: \<open>rd\<close> rounds the
  exact quotient and the exact power, \<open>fl_sub\<close> and \<open>fl_mul\<close> round their results. The
  quotient and the product may be infinite and the product NaN; \<^verbatim>\<open>round\<close> raises
  OverflowError for an infinity, ValueError for NaN and TypeError for a complex number.
\<close>

definition raw_interval :: "real \<Rightarrow> real \<Rightarrow> error + pyfloat option" where
  "raw_interval stability retention_factor =
     (case float_div stability FACTOR of
        Inl e \<Rightarrow> Inl e
      | Inr q \<Rightarrow>
          (case float_pow retention_factor (nearest (1 / DECAY)) of
             Inl e \<Rightarrow> Inl e
           | Inr None \<Rightarrow> Inr None
           | Inr (Some p) \<Rightarrow> Inr (Some (fl_mul (rd q) (fl_sub (rd p) (Finite 1))))))"

definition next_interval :: "real \<Rightarrow> real \<Rightarrow> error + int" where
  "next_interval stability retention_factor =
     (case raw_interval stability retention_factor of
        Inl e \<Rightarrow> Inl e
      | Inr None \<Rightarrow> Inl TypeError
      | Inr (Some (Finite x)) \<Rightarrow> Inr (min (max (py_round x) 1) maximum_interval)
      | Inr (Some NaN) \<Rightarrow> Inl ValueError
      | Inr (Some _) \<Rightarrow> Inl OverflowError)"

definition mean_reversion :: "real \<Rightarrow> real \<Rightarrow> real" where
  "mean_reversion init current = w ! 7 * init + (1 - w ! 7) * current"

definition next_difficulty :: "real \<Rightarrow> int \<Rightarrow> real" where
  "next_difficulty difficulty rating =
     (let next_d = difficulty - w ! 6 * of_int (rating - 3)
      in min (max (mean_reversion 5.0 next_d) 1) 10)"

text \<open>
  \<^verbatim>\<open>math.pow(stability, -w[9])\<close> is evaluated before \<^verbatim>\<open>math.exp\<close>, which raises TypeError
  on a complex retrievability.
\<close>

definition next_recall_stability ::
  "real \<Rightarrow> real \<Rightarrow> real option \<Rightarrow> int \<Rightarrow> error + real" where
  "next_recall_stability difficulty stability retrievability rating =
     (case math_pow stability (- (w ! 9)) of
        Inl e \<Rightarrow> Inl e
      | Inr p \<Rightarrow>
          (case retrievability of
             None \<Rightarrow> Inl TypeError
           | Some R \<Rightarrow>
               Inr (stability
                    * (1 + exp (w ! 8) * (11 - difficulty) * p
                           * (exp ((1 - R) * w ! 10) - 1))
                    * (if rating = 2 then w ! 15 else 1))))"

section \<open>Items, configuration and the clock\<close>

text \<open>
  A calendar date is the number of its day. The source keeps dates as the strings of
  \<^verbatim>\<open>date.isoformat()\<close> and compares them as strings; these have a fixed width, so their
  order is the order of the days. \<^verbatim>\<open>datetime.now(timezone.utc)\<close> is an input of the
  model, in seconds since the epoch, and
  \<^verbatim>\<open>(datetime.now(timezone.utc) + timedelta(hours=-4)).date()\<close> is \<open>local_day\<close> of it.
\<close>

type_synonym day = int

definition local_day :: "int \<Rightarrow> day" where
  "local_day now = (now - 4 * 3600) div 86400"

text \<open>
  One value of the \<^verbatim>\<open>questions\<close> dictionary. A rating record
  \<^verbatim>\<open>{"date": d, "rating": r}\<close> is the pair \<open>(d, r)\<close>, a solving time record
  \<^verbatim>\<open>{"date": d, "time_taken": t}\<close> the pair \<open>(d, t)\<close>. The key \<^verbatim>\<open>company_tags\<close> is read
  with \<^verbatim>\<open>details.get('company_tags', [])\<close>, so it may be absent.
\<close>

record details =
  link :: string
  problem_type :: string
  company_tags :: "string list option"
  last_reviewed :: day
  next_review :: day
  interval :: int
  stability :: real
  difficulty :: real
  retention_factor :: real
  current_retention_rate :: "real option"
  feynman :: string
  solving_time :: "(day \<times> real) list"
  average_time :: "real option"
  ratings :: "(day \<times> int) list"

definition get_company_tags :: "details \<Rightarrow> string list" where
  "get_company_tags d = (case company_tags d of None \<Rightarrow> [] | Some ts \<Rightarrow> ts)"

text \<open>
  The \<^verbatim>\<open>config\<close> dictionary. The start of the script reads \<^verbatim>\<open>COMPANY_PREP_MODE\<close> and
  \<^verbatim>\<open>COMPANY_PREP_RETENTION_FACTOR\<close>, so they are present; \<^verbatim>\<open>COMPANY_PREP_TARGET\<close> is
  present only if the file holds it or the mode was toggled.
\<close>

record config =
  COMPANY_PREP_MODE :: bool
  COMPANY_PREP_TARGET :: "string option"
  COMPANY_PREP_RETENTION_FACTOR :: real

text \<open>The collection: a dictionary in insertion order, as the pairs of \<^verbatim>\<open>questions.items()\<close>.\<close>

type_synonym questions = "(string \<times> details) list"

definition difficulty_order :: "string \<rightharpoonup> int" where
  "difficulty_order = map_of
     [(''Arrays'', 1), (''Hashing'', 2), (''2P'', 3), (''Stack'', 4), (''Sorting'', 5),
      (''Binary Search'', 6), (''Sliding Window'', 7), (''Linked List'', 8),
      (''Greedy'', 9), (''Heap'', 10), (''Intervals'', 11), (''Trees'', 12),
      (''Math'', 13), (''Graphs'', 14), (''Backtracking'', 15), (''Tries'', 16),
      (''DP'', 17)]"

section \<open>The review session\<close>

text \<open>
  \<^verbatim>\<open>update_question_metrics\<close>, lines 216 to 218: the retention passed on to
  \<^verbatim>\<open>next_interval\<close>. The multiplication reads \<^verbatim>\<open>config.COMPANY_PREP_RETENTION_FACTOR\<close>, an
  attribute of a dictionary, which raises AttributeError.
\<close>

definition effective_retention :: "config \<Rightarrow> details \<Rightarrow> error + real" where
  "effective_retention cfg d =
     (if COMPANY_PREP_MODE cfg then
        (case COMPANY_PREP_TARGET cfg of
           None \<Rightarrow> Inl KeyError
         | Some target \<Rightarrow>
             if target \<notin> set (get_company_tags d) then Inl AttributeError
             else Inr (retention_factor d))
      else Inr (retention_factor d))"

text \<open>
  \<^verbatim>\<open>update_question_metrics(question, rating)\<close> on the entry \<open>d\<close> of the question; \<open>now\<close>
  is the clock read on line 230.
\<close>

definition update_question_metrics :: "config \<Rightarrow> int \<Rightarrow> details \<Rightarrow> int \<Rightarrow> error + details" where
  "update_question_metrics cfg now d rating =
     (let last_interval = interval d;
          last_stability = stability d;
          last_difficulty = difficulty d
      in case effective_retention cfg d of
           Inl e \<Rightarrow> Inl e
         | Inr retention \<Rightarrow>
        (case forgetting_curve (of_int last_interval) last_stability of
           Inl e \<Rightarrow> Inl e
         | Inr retrievability \<Rightarrow>
        (case next_recall_stability last_difficulty last_stability retrievability rating of
           Inl e \<Rightarrow> Inl e
         | Inr new_stability \<Rightarrow>
        (let new_difficulty = next_difficulty last_difficulty rating
         in case next_interval new_stability retention of
              Inl e \<Rightarrow> Inl e
            | Inr base_interval \<Rightarrow>
           (let base_interval' = (if rating = 1 then 1 else base_interval);
                new_stability' =
                  (if rating = 1 then max (new_stability * 0.6) 0.1 else new_stability);
                new_interval = min base_interval' interval_cap;
                next_review' = local_day now + new_interval
            in Inr (d\<lparr>interval := new_interval,
                      stability := new_stability',
                      difficulty := new_difficulty,
                      next_review := next_review'\<rparr>))))))"

definition calculate_average_time :: "(day \<times> real) list \<Rightarrow> real option" where
  "calculate_average_time solving_times =
     (if solving_times \<noteq> [] then
        Some (sum_list (map snd solving_times) / of_nat (length solving_times))
      else None)"

text \<open>
  Line 192: the sum runs over the records whose rating is truthy (not zero) and adds 5
  for a rating of at least 4, the rating itself otherwise; the divisor counts every record.
\<close>

definition retention_rate :: "(day \<times> int) list \<Rightarrow> error + real" where
  "retention_rate rs =
     float_div
       (of_int (sum_list (map (\<lambda>r. if 4 \<le> snd r then 5 else snd r)
                              (filter (\<lambda>r. snd r \<noteq> 0) rs))))
       (of_int (int (length rs) * 5))"

text \<open>
  \<^verbatim>\<open>review_single_question(question, details, today)\<close>. The inputs it reads are arguments:
  \<open>start_problem\<close> is the stripped, lower-cased answer to the first prompt, \<open>rating\<close> the
  value of \<^verbatim>\<open>get_valid_input\<close>, \<open>time_taken\<close> the minutes between the two clock reads,
  \<open>now\<close> the clock read inside \<^verbatim>\<open>update_question_metrics\<close>, \<open>explanation\<close> the stripped
  last answer. \<^verbatim>\<open>questions[question]\<close> and \<^verbatim>\<open>details\<close> are the same dictionary \<open>d\<close>. The
  result pairs the returned boolean with the entry as the call leaves it.
\<close>

definition review_single_question ::
  "config \<Rightarrow> details \<Rightarrow> day \<Rightarrow> string \<Rightarrow> int \<Rightarrow> real \<Rightarrow> int \<Rightarrow> string \<Rightarrow> error + (bool \<times> details)" where
  "review_single_question cfg d today start_problem rating time_taken now explanation =
     (if CHR ''n'' \<in> set start_problem then Inr (False, d)
      else
        let d1 = d\<lparr>ratings := ratings d @ [(today, rating)]\<rparr>
        in case retention_rate (ratings d1) of
             Inl e \<Rightarrow> Inl e
           | Inr rate \<Rightarrow>
          (let d2 = d1\<lparr>current_retention_rate := Some rate\<rparr>;
               d3 = d2\<lparr>solving_time := solving_time d2 @ [(today, time_taken)]\<rparr>;
               d4 = d3\<lparr>average_time := calculate_average_time (solving_time d3)\<rparr>
           in case update_question_metrics cfg now d4 rating of
                Inl e \<Rightarrow> Inl e
              | Inr d5 \<Rightarrow>
                  Inr (True, d5\<lparr>feynman := explanation, last_reviewed := today\<rparr>)))"

text \<open>
  \<^verbatim>\<open>review_questions(company)\<close>, lines 158 to 165: the listing. \<open>today\<close> is \<open>local_day\<close> of
  the clock read on line 156. The sort key \<^verbatim>\<open>difficulty_order[...]\<close> raises KeyError for a
  problem type outside the table; \<^verbatim>\<open>sorted\<close> is stable.
\<close>

definition is_due :: "string option \<Rightarrow> day \<Rightarrow> string \<times> details \<Rightarrow> bool" where
  "is_due company today q =
     ((case company of None \<Rightarrow> True | Some c \<Rightarrow> c \<in> set (get_company_tags (snd q)))
      \<and> (next_review (snd q) \<le> today \<or> last_reviewed (snd q) = today))"

definition filtered_questions :: "string option \<Rightarrow> day \<Rightarrow> questions \<Rightarrow> questions" where
  "filtered_questions company today qs = filter (is_due company today) qs"

definition sort_key_of :: "string \<times> details \<Rightarrow> int" where
  "sort_key_of q = (case difficulty_order (problem_type (snd q)) of Some k \<Rightarrow> k | None \<Rightarrow> 0)"

definition sorted_questions :: "string option \<Rightarrow> day \<Rightarrow> questions \<Rightarrow> error + questions" where
  "sorted_questions company today qs =
     (let fq = filtered_questions company today qs
      in if \<forall>q \<in> set fq. difficulty_order (problem_type (snd q)) \<noteq> None
         then Inr (sort_key sort_key_of fq)
         else Inl KeyError)"

definition unreviewed_questions :: "day \<Rightarrow> questions \<Rightarrow> questions" where
  "unreviewed_questions today sq = filter (\<lambda>q. last_reviewed (snd q) \<noteq> today) sq"

section \<open>Loading the collection\<close>

text \<open>
  The value \<^verbatim>\<open>json.load\<close> returns: \<^verbatim>\<open>None\<close>, a boolean, a number, a string, a list or a
  dictionary in the order of the file. \<open>falsy\<close> is Python's \<^verbatim>\<open>not v\<close> on these.
\<close>

datatype json =
    JNull
  | JBool bool
  | JInt int
  | JFloat real
  | JString string
  | JArray "json list"
  | JObject "(string \<times> json) list"

fun falsy :: "json \<Rightarrow> bool" where
  "falsy JNull = True"
| "falsy (JBool b) = (\<not> b)"
| "falsy (JInt n) = (n = 0)"
| "falsy (JFloat x) = (x = 0)"
| "falsy (JString s) = (s = [])"
| "falsy (JArray vs) = (vs = [])"
| "falsy (JObject kvs) = (kvs = [])"

text \<open>
  \<^verbatim>\<open>open(DATA_FILE, "r")\<close> opens the file as text, and \<^verbatim>\<open>json.load(f)\<close> first reads all
  of it, which decodes the bytes; with UTF-8 as the encoding of the platform the strict
  decoder accepts exactly the well-formed byte sequences below (no overlong form, no
  surrogate, nothing above U+10FFFF) and raises UnicodeDecodeError on any other.
\<close>

definition continuation :: "8 word \<Rightarrow> bool" where
  "continuation b = (0x80 \<le> b \<and> b \<le> 0xBF)"

fun utf8_valid :: "8 word list \<Rightarrow> bool" where
  "utf8_valid [] = True"
| "utf8_valid (b0 # bs) =
     (if b0 \<le> 0x7F then utf8_valid bs
      else if 0xC2 \<le> b0 \<and> b0 \<le> 0xDF then
        (case bs of
           b1 # r \<Rightarrow> continuation b1 \<and> utf8_valid r
         | _ \<Rightarrow> False)
      else if 0xE0 \<le> b0 \<and> b0 \<le> 0xEF then
        (case bs of
           b1 # b2 # r \<Rightarrow>
             (if b0 = 0xE0 then 0xA0 \<le> b1 \<and> b1 \<le> 0xBF
              else if b0 = 0xED then 0x80 \<le> b1 \<and> b1 \<le> 0x9F
              else continuation b1)
             \<and> continuation b2 \<and> utf8_valid r
         | _ \<Rightarrow> False)
      else if 0xF0 \<le> b0 \<and> b0 \<le> 0xF4 then
        (case bs of
           b1 # b2 # b3 # r \<Rightarrow>
             (if b0 = 0xF0 then 0x90 \<le> b1 \<and> b1 \<le> 0xBF
              else if b0 = 0xF4 then 0x80 \<le> b1 \<and> b1 \<le> 0x8F
              else continuation b1)
             \<and> continuation b2 \<and> continuation b3 \<and> utf8_valid r
         | _ \<Rightarrow> False)
      else False)"

text \<open>
  \<^verbatim>\<open>load_questions()\<close>. The file is \<open>None\<close> when \<^verbatim>\<open>os.path.exists(DATA_FILE)\<close> is false,
  its bytes otherwise. The parser of the library is the parameter \<open>json_loads\<close>, from the
  decoded text (given by its bytes) to the value or the exception it raises. Only
  \<^verbatim>\<open>json.JSONDecodeError\<close> is caught. The result is the new value of the global
  \<^verbatim>\<open>questions\<close>.
\<close>

definition load_questions ::
  "(8 word list \<Rightarrow> error + json) \<Rightarrow> 8 word list option \<Rightarrow> error + json" where
  "load_questions json_loads file =
     (case file of
        None \<Rightarrow> Inr (JObject [])
      | Some bytes \<Rightarrow>
          if \<not> utf8_valid bytes then Inl UnicodeDecodeError
          else
            (case json_loads bytes of
               Inr questions \<Rightarrow> Inr (if falsy questions then JObject [] else questions)
             | Inl e \<Rightarrow> if e = JSONDecodeError then Inr (JObject []) else Inl e))"

section \<open>Example inputs\<close>

text \<open>
  An item as \<^verbatim>\<open>add_question\<close> creates it on day 100 with retention 0.85, tagged for one
  company; a configuration with the company preparation mode off, and one with the mode
  on for another company.
\<close>

definition new_item :: details where
  "new_item = \<lparr>link = ''https://leetcode.com/problems/two-sum'',
               problem_type = ''Arrays'',
               company_tags = Some [''Meta''],
               last_reviewed = 100,
               next_review = 101,
               interval = 1,
               stability = w ! 0,
               difficulty = 5.0,
               retention_factor = 0.85,
               current_retention_rate = None,
               feynman = [],
               solving_time = [],
               average_time = None,
               ratings = []\<rparr>"

definition prep_off :: config where
  "prep_off = \<lparr>COMPANY_PREP_MODE = False,
               COMPANY_PREP_TARGET = Some [],
               COMPANY_PREP_RETENTION_FACTOR = 1.2\<rparr>"

definition prep_google :: config where
  "prep_google = \<lparr>COMPANY_PREP_MODE = True,
                  COMPANY_PREP_TARGET = Some ''Google'',
                  COMPANY_PREP_RETENTION_FACTOR = 1.2\<rparr>"

text \<open>
  A collection of four items on day 101: two are due, one is not due before day 105, one
  was already reviewed on day 101.
\<close>

definition example_questions :: questions where
  "example_questions =
     [(''Coin Change'', new_item\<lparr>problem_type := ''DP''\<rparr>),
      (''Two Sum'', new_item),
      (''Valid Anagram'',
         new_item\<lparr>problem_type := ''Hashing'', last_reviewed := 100, next_review := 105\<rparr>),
      (''Contains Duplicate'', new_item\<lparr>last_reviewed := 101, next_review := 103\<rparr>)]"

text \<open>
  A parser for the examples: it reads the text \<^verbatim>\<open>{}\<close> as the empty dictionary and rejects
  every other text, as \<^verbatim>\<open>json.loads\<close> rejects a malformed one.
\<close>

definition braces_loads :: "8 word list \<Rightarrow> error + json" where
  "braces_loads bytes =
     (if bytes = [0x7B, 0x7D] then Inr (JObject []) else Inl JSONDecodeError)"


section \<open>Auxiliary definitions\<close>

text \<open>
  Two parts of \<open>next_interval\<close>, named for the proofs: the double of
  \<^verbatim>\<open>retention_factor ** (1 / DECAY) - 1\<close> when the power does not overflow, and the step
  from the unrounded interval to the result.
\<close>

definition retention_term :: "real \<Rightarrow> real" where
  "retention_term r = nearest (nearest (r powr (- (5 / 2))) - 1)"

definition clamp_interval :: "pyfloat \<Rightarrow> error + int" where
  "clamp_interval y =
     (case y of
        Finite x \<Rightarrow> Inr (min (max (py_round x) 1) 365)
      | NaN \<Rightarrow> Inl ValueError
      | _ \<Rightarrow> Inl OverflowError)"

section \<open>Properties of the rounding to an integer\<close>

lemma py_round_lower: "\<lfloor>x\<rfloor> \<le> py_round x"
  by (simp add: py_round_def Let_def)

lemma py_round_upper: "py_round x \<le> \<lfloor>x\<rfloor> + 1"
  by (simp add: py_round_def Let_def)

lemma py_round_mono:
  assumes "x \<le> y"
  shows "py_round x \<le> py_round y"
proof (cases "\<lfloor>x\<rfloor> = \<lfloor>y\<rfloor>")
  case True
  with assms have "x - of_int \<lfloor>x\<rfloor> \<le> y - of_int \<lfloor>y\<rfloor>" by simp
  with True show ?thesis by (auto simp: py_round_def Let_def)
next
  case False
  with assms have "\<lfloor>x\<rfloor> < \<lfloor>y\<rfloor>" using floor_mono [OF assms] by linarith
  then have "py_round x \<le> \<lfloor>y\<rfloor>" using py_round_upper [of x] by linarith
  then show ?thesis using py_round_lower [of y] by linarith
qed

lemma py_round_of_int [simp]: "py_round (of_int n) = n"
  by (simp add: py_round_def)

lemma py_round_minus: "py_round (- x) = - py_round x"
proof (cases "x = of_int \<lfloor>x\<rfloor>")
  case True
  then obtain n :: int where "x = of_int n" ..
  then have "- x = of_int (- n)" by simp
  then show ?thesis using \<open>x = of_int n\<close> by (metis py_round_of_int)
next
  case False
  then have lt: "of_int \<lfloor>x\<rfloor> < x" using of_int_floor_le [of x] by linarith
  have ub: "x < of_int \<lfloor>x\<rfloor> + 1" by linarith
  have fl: "\<lfloor>- x\<rfloor> = - \<lfloor>x\<rfloor> - 1"
  proof (rule floor_unique)
    have c: "real_of_int (- \<lfloor>x\<rfloor> - 1) = - of_int \<lfloor>x\<rfloor> - 1" by simp
    show "of_int (- \<lfloor>x\<rfloor> - 1) \<le> - x" unfolding c using ub by linarith
    show "- x < of_int (- \<lfloor>x\<rfloor> - 1) + 1" unfolding c using lt by linarith
  qed
  show ?thesis
    using lt ub by (auto simp: py_round_def Let_def fl algebra_simps)
qed

lemma py_round_below_half:
  assumes "x < of_int n - 1 / 2"
  shows "py_round x \<le> n - 1"
proof -
  have "x < of_int n" using assms by linarith
  then have f: "\<lfloor>x\<rfloor> \<le> n - 1" by (simp add: floor_less_iff)
  show ?thesis
  proof (cases "\<lfloor>x\<rfloor> = n - 1")
    case True
    then have "x - of_int \<lfloor>x\<rfloor> < 1 / 2" using assms by simp
    then show ?thesis using True by (simp add: py_round_def Let_def)
  next
    case False
    then have "\<lfloor>x\<rfloor> + 1 \<le> n - 1" using f by linarith
    then show ?thesis using py_round_upper [of x] by linarith
  qed
qed

lemma py_round_eq:
  assumes "of_int n - 1 / 2 < x" "x < of_int n + 1 / 2"
  shows "py_round x = n"
proof (cases "of_int n \<le> x")
  case True
  then have "\<lfloor>x\<rfloor> = n" using assms(2) by (intro floor_unique) linarith+
  then show ?thesis using assms(2) by (simp add: py_round_def Let_def)
next
  case False
  have c: "real_of_int (n - 1) = of_int n - 1" by simp
  have "\<lfloor>x\<rfloor> = n - 1"
  proof (rule floor_unique)
    show "of_int (n - 1) \<le> x" unfolding c using assms(1) by linarith
    show "x < of_int (n - 1) + 1" unfolding c using False by linarith
  qed
  then show ?thesis using assms(1) False by (simp add: py_round_def Let_def)
qed


section \<open>Properties of the doubles\<close>

lemma binade_minus [simp]: "binade (- x) = binade x"
  by (simp add: binade_def)

lemma ulp_minus [simp]: "ulp (- x) = ulp x"
  by (simp add: ulp_def)

lemma ulp_pos [simp]: "0 < ulp x"
  by (simp add: ulp_def)

lemma ulp_nonneg [simp]: "0 \<le> ulp x"
  by (simp add: ulp_def)

lemma ulp_neq_zero [simp]: "ulp x \<noteq> 0"
  by (simp add: ulp_def)

lemma nearest_minus: "nearest (- x) = - nearest x"
  by (simp add: nearest_def py_round_minus)

lemma nearest_zero [simp]: "nearest 0 = 0"
  by (simp add: nearest_def py_round_def)

lemma binade_upper:
  assumes "0 < x"
  shows "x < 2 powr of_int (binade x + 1)"
proof -
  have "2 powr of_int \<lfloor>log 2 x\<rfloor> \<le> x \<and> x < 2 powr of_int (\<lfloor>log 2 x\<rfloor> + 1)"
    using floor_log_eq_powr_iff [of x 2 "\<lfloor>log 2 x\<rfloor>"] assms by simp
  moreover have "(2::real) powr of_int (\<lfloor>log 2 x\<rfloor> + 1) \<le> 2 powr of_int (binade x + 1)"
    using assms by (intro powr_mono) (simp_all add: binade_def)
  ultimately show ?thesis by linarith
qed

lemma binade_lower:
  assumes "0 < x" "- 1022 < binade x"
  shows "2 powr of_int (binade x) \<le> x"
proof -
  have "binade x = \<lfloor>log 2 x\<rfloor>" using assms by (simp add: binade_def max_def split: if_splits)
  then show ?thesis
    using floor_log_eq_powr_iff [of x 2 "\<lfloor>log 2 x\<rfloor>"] assms(1) by simp
qed

lemma binade_mono:
  assumes "0 < x" "x \<le> y"
  shows "binade x \<le> binade y"
proof -
  have "log 2 x \<le> log 2 y" using assms by simp
  then have "\<lfloor>log 2 x\<rfloor> \<le> \<lfloor>log 2 y\<rfloor>" by (rule floor_mono)
  then show ?thesis using assms by (simp add: binade_def)
qed

lemma two_powr_int: "0 \<le> k \<Longrightarrow> (2::real) powr of_int k = of_int (2 ^ nat k)"
  by (simp add: powr_realpow [symmetric])

lemma powr_shift53: "(2::real) powr (a + 53) = 9007199254740992 * 2 powr a"
  by (simp add: powr_add)

lemma powr_shift52: "(2::real) powr (a + 52) = 4503599627370496 * 2 powr a"
  by (simp add: powr_add)

lemma nearest_nonneg:
  assumes "0 \<le> x"
  shows "0 \<le> nearest x"
proof -
  have "0 \<le> x / ulp x" by (rule divide_nonneg_pos [OF assms ulp_pos])
  then have "py_round 0 \<le> py_round (x / ulp x)" by (rule py_round_mono)
  then have "0 \<le> py_round (x / ulp x)" by (simp add: py_round_def)
  then show ?thesis by (simp add: nearest_def)
qed

lemma nearest_upper:
  assumes "0 < x"
  shows "nearest x \<le> 2 powr of_int (binade x + 1)"
proof -
  have "x / ulp x \<le> 2 powr of_int (binade x + 1) / ulp x"
    using binade_upper [OF assms] by (intro divide_right_mono) simp_all
  also have "\<dots> = 2 powr of_int 53"
    by (simp add: ulp_def powr_diff [symmetric])
  also have "\<dots> = of_int (2 ^ 53)" using two_powr_int [of 53] by simp
  finally have "py_round (x / ulp x) \<le> py_round (of_int (2 ^ 53))" by (rule py_round_mono)
  then have "py_round (x / ulp x) \<le> 2 ^ 53" by (simp only: py_round_of_int)
  then have "of_int (py_round (x / ulp x)) \<le> (2::real) ^ 53"
    by (metis of_int_le_iff of_int_numeral of_int_power)
  then have "nearest x \<le> 2 ^ 53 * ulp x"
    by (simp add: nearest_def mult_right_mono)
  also have "\<dots> = 2 powr of_int 53 * ulp x" using two_powr_int [of 53] by simp
  also have "\<dots> = 2 powr of_int (binade x + 1)"
    using powr_shift53 [of "real_of_int (binade x) - 52"] by (simp add: ulp_def add.commute)
  finally show ?thesis .
qed

lemma nearest_lower:
  assumes "0 < x" "- 1022 < binade x"
  shows "2 powr of_int (binade x) \<le> nearest x"
proof -
  have "2 powr of_int (binade x) / ulp x \<le> x / ulp x"
    using binade_lower [OF assms] by (intro divide_right_mono) simp_all
  moreover have "2 powr of_int (binade x) / ulp x = 2 powr of_int 52"
    by (simp add: ulp_def powr_diff [symmetric])
  moreover have "(2::real) powr of_int 52 = of_int (2 ^ 52)" using two_powr_int [of 52] by simp
  ultimately have "of_int (2 ^ 52) \<le> x / ulp x" by simp
  then have "py_round (of_int (2 ^ 52)) \<le> py_round (x / ulp x)" by (rule py_round_mono)
  then have "2 ^ 52 \<le> py_round (x / ulp x)" by (simp only: py_round_of_int)
  then have "(2::real) ^ 52 \<le> of_int (py_round (x / ulp x))"
    by (metis of_int_le_iff of_int_numeral of_int_power)
  then have "2 ^ 52 * ulp x \<le> nearest x"
    by (simp add: nearest_def mult_right_mono)
  moreover have "2 ^ 52 * ulp x = 2 powr of_int 52 * ulp x" using two_powr_int [of 52] by simp
  moreover have "2 powr of_int 52 * ulp x = 2 powr of_int (binade x)"
    using powr_shift52 [of "real_of_int (binade x) - 52"] by (simp add: ulp_def)
  ultimately show ?thesis by simp
qed

lemma nearest_mono_pos:
  assumes "0 < x" "x \<le> y"
  shows "nearest x \<le> nearest y"
proof (cases "binade x = binade y")
  case True
  then have u: "ulp x = ulp y" by (simp add: ulp_def)
  have "x / ulp y \<le> y / ulp y" using assms(2) by (intro divide_right_mono) simp_all
  then have "py_round (x / ulp y) \<le> py_round (y / ulp y)" by (rule py_round_mono)
  then show ?thesis by (simp add: nearest_def u mult_right_mono)
next
  case False
  then have lt: "binade x < binade y" using binade_mono [OF assms] by linarith
  have y: "0 < y" using assms by linarith
  have "- 1022 \<le> binade x" by (simp add: binade_def)
  then have n: "- 1022 < binade y" using lt by linarith
  have "nearest x \<le> 2 powr of_int (binade x + 1)" by (rule nearest_upper [OF assms(1)])
  also have "\<dots> \<le> 2 powr of_int (binade y)" using lt by (intro powr_mono) simp_all
  also have "\<dots> \<le> nearest y" by (rule nearest_lower [OF y n])
  finally show ?thesis .
qed


text \<open>Rounding to the nearest double is monotone.\<close>

lemma nearest_mono:
  assumes "x \<le> y"
  shows "nearest x \<le> nearest y"
proof -
  consider "0 < x" | "x \<le> 0" "0 \<le> y" | "y < 0" by linarith
  then show ?thesis
  proof cases
    case 1
    then show ?thesis using assms by (rule nearest_mono_pos)
  next
    case 2
    have "0 \<le> nearest (- x)" using 2 by (intro nearest_nonneg) simp
    then have "nearest x \<le> 0" by (simp add: nearest_minus)
    moreover have "0 \<le> nearest y" using 2 by (intro nearest_nonneg)
    ultimately show ?thesis by linarith
  next
    case 3
    then have "nearest (- y) \<le> nearest (- x)" using assms by (intro nearest_mono_pos) simp_all
    then show ?thesis by (simp add: nearest_minus)
  qed
qed


text \<open>A number of less than 53 bits, not below the subnormal unit, is its own double.\<close>

lemma nearest_exact:
  assumes "x = of_int m * 2 powr of_int k" "\<bar>m\<bar> < 2 ^ 53" "- 1074 \<le> k"
  shows "nearest x = x"
proof (cases "x = 0")
  case True
  then show ?thesis by simp
next
  case False
  then have ax: "0 < \<bar>x\<bar>" by simp
  have "\<bar>x\<bar> = of_int \<bar>m\<bar> * 2 powr of_int k" by (simp add: assms(1) abs_mult)
  also have "\<dots> < of_int (2 ^ 53) * 2 powr of_int k"
    using assms(2) by (intro mult_strict_right_mono) (simp_all del: of_int_power)
  also have "\<dots> = 2 powr of_int 53 * 2 powr of_int k" using two_powr_int [of 53] by simp
  also have "\<dots> = 2 powr of_int (52 + k + 1)"
    using powr_shift53 [of "real_of_int k"] by (simp add: add.commute)
  finally have "\<bar>x\<bar> < 2 powr of_int (52 + k + 1)" .
  then have "\<lfloor>log 2 \<bar>x\<bar>\<rfloor> < 52 + k + 1"
    using ax by (simp add: floor_less_iff log_less_iff del: of_int_add)
  then have b: "binade x \<le> 52 + k" using assms(3) by (simp add: binade_def)
  define j where "j = k - (binade x - 52)"
  have j: "0 \<le> j" using b by (simp add: j_def)
  have "x / ulp x = of_int m * (2 powr of_int k / 2 powr of_int (binade x - 52))"
    by (simp add: assms(1) ulp_def)
  also have "2 powr of_int k / 2 powr of_int (binade x - 52) = (2::real) powr of_int j"
    by (simp add: j_def powr_diff [symmetric])
  also have "\<dots> = of_int (2 ^ nat j)" by (rule two_powr_int [OF j])
  finally have "x / ulp x = of_int (m * 2 ^ nat j)" by simp
  then have "py_round (x / ulp x) = m * 2 ^ nat j" by (simp only: py_round_of_int)
  then have "nearest x = of_int (m * 2 ^ nat j) * ulp x" by (simp add: nearest_def)
  also have "\<dots> = x / ulp x * ulp x" using \<open>x / ulp x = of_int (m * 2 ^ nat j)\<close> by simp
  also have "\<dots> = x" by simp
  finally show ?thesis .
qed

lemma binade_eq:
  assumes "2 powr of_int k \<le> \<bar>x\<bar>" "\<bar>x\<bar> < 2 powr of_int (k + 1)" "- 1022 \<le> k"
  shows "binade x = k"
proof -
  have "0 < \<bar>x\<bar>" using assms(1) by (smt (verit) powr_gt_zero)
  then have "\<lfloor>log 2 \<bar>x\<bar>\<rfloor> = k"
    using floor_log_eq_powr_iff [of "\<bar>x\<bar>" 2 k] assms(1,2) by simp
  then show ?thesis using assms(3) by (simp add: binade_def)
qed

lemma nearest_eval:
  assumes "2 powr of_int k \<le> \<bar>x\<bar>" "\<bar>x\<bar> < 2 powr of_int (k + 1)" "- 1022 \<le> k"
  shows "nearest x = of_int (py_round (x / 2 powr of_int (k - 52))) * 2 powr of_int (k - 52)"
  by (simp add: nearest_def ulp_def binade_eq [OF assms])

lemma nearest_pow2: "- 1074 \<le> k \<Longrightarrow> nearest (2 powr of_int k) = 2 powr of_int k"
  by (rule nearest_exact [of _ 1 k]) simp_all

lemma nearest_le_zero: "x \<le> 0 \<Longrightarrow> nearest x \<le> 0"
  using nearest_mono [of x 0] by simp

lemma nearest_ge: "of_int m * 2 powr of_int k \<le> x \<Longrightarrow> \<bar>m\<bar> < 2 ^ 53 \<Longrightarrow> - 1074 \<le> k
    \<Longrightarrow> of_int m * 2 powr of_int k \<le> nearest x"
  using nearest_mono [of "of_int m * 2 powr of_int k" x] nearest_exact [of _ m k] by simp

lemma nearest_le: "x \<le> of_int m * 2 powr of_int k \<Longrightarrow> \<bar>m\<bar> < 2 ^ 53 \<Longrightarrow> - 1074 \<le> k
    \<Longrightarrow> nearest x \<le> of_int m * 2 powr of_int k"
  using nearest_mono [of x "of_int m * 2 powr of_int k"] nearest_exact [of _ m k] by simp

lemma nearest_one [simp]: "nearest 1 = 1"
  using nearest_exact [of 1 1 0] by simp

lemma rd_Finite_iff: "rd x = Finite v \<longleftrightarrow> \<bar>nearest x\<bar> < 2 ^ 1024 \<and> v = nearest x"
  by (auto simp: rd_def)

lemma rd_cases:
  "rd x = Finite (nearest x) \<and> \<bar>nearest x\<bar> < 2 ^ 1024
   \<or> rd x = PInf \<and> 0 < x \<or> rd x = NInf \<and> x \<le> 0"
  by (auto simp: rd_def)

lemma rd_neq_NaN [simp]: "rd x \<noteq> NaN"
  by (simp add: rd_def)

lemma rd_bounded:
  assumes "\<bar>x\<bar> \<le> 2 powr of_int k" "k \<le> 1023" "- 1074 \<le> k"
  shows "rd x = Finite (nearest x)" and "\<bar>nearest x\<bar> \<le> 2 powr of_int k"
proof -
  have up: "nearest x \<le> 2 powr of_int k"
    using nearest_mono [of x "2 powr of_int k"] assms(1,3) by (simp add: nearest_pow2)
  have "nearest (- (2 powr of_int k)) \<le> nearest x"
    using assms(1) by (intro nearest_mono) linarith
  then have lo: "- (2 powr of_int k) \<le> nearest x"
    using assms(3) by (simp add: nearest_minus nearest_pow2)
  show b: "\<bar>nearest x\<bar> \<le> 2 powr of_int k" using up lo by linarith
  have "(2::real) powr of_int k \<le> 2 powr of_int 1023"
    using assms(2) by (intro powr_mono) simp_all
  also have "\<dots> < 2 ^ 1024" by simp
  finally show "rd x = Finite (nearest x)" using b by (simp add: rd_def)
qed

lemma rd_overflow:
  assumes "2 ^ 1024 \<le> x"
  shows "rd x = PInf"
proof -
  have "nearest (2 powr of_int 1024) \<le> nearest x"
    using assms by (intro nearest_mono) simp
  then have "2 ^ 1024 \<le> nearest x" using nearest_pow2 [of 1024] by simp
  moreover have "0 < x" using assms by (smt (verit) zero_less_power)
  ultimately show ?thesis by (simp add: rd_def)
qed

lemma overflow_threshold_less: "overflow_threshold < 2 ^ 1024"
  by (simp add: overflow_threshold_def)

lemma nearest_below_threshold:
  assumes "0 \<le> x" "x < overflow_threshold"
  shows "nearest x \<le> 2 ^ 1024 - 2 ^ 971"
proof (cases "x \<le> 2 powr of_int 1023")
  case True
  then have "\<bar>nearest x\<bar> \<le> 2 powr of_int 1023"
    using rd_bounded(2) [of x 1023] assms(1) by simp
  then show ?thesis by simp
next
  case False
  have b: "2 powr of_int 1023 \<le> \<bar>x\<bar>" "\<bar>x\<bar> < 2 powr of_int (1023 + 1)"
    using False assms overflow_threshold_less by simp_all
  have e: "nearest x = of_int (py_round (x / 2 powr of_int (1023 - 52))) * 2 powr of_int (1023 - 52)"
    by (rule nearest_eval [OF b]) simp
  have "x / 2 powr of_int (1023 - 52) < of_int (2 ^ 53) - 1 / 2"
    using assms(2) by (simp add: overflow_threshold_def field_simps)
  then have "py_round (x / 2 powr of_int (1023 - 52)) \<le> 2 ^ 53 - 1"
    by (rule py_round_below_half)
  then have "real_of_int (py_round (x / 2 powr of_int (1023 - 52))) \<le> of_int (2 ^ 53 - 1)"
    by (simp only: of_int_le_iff)
  then have "nearest x \<le> of_int (2 ^ 53 - 1) * 2 powr of_int (1023 - 52)"
    unfolding e by (intro mult_right_mono) simp_all
  also have "\<dots> = 2 ^ 1024 - 2 ^ 971" by simp
  finally show ?thesis .
qed

lemma rd_below_threshold:
  assumes "0 \<le> x" "x < overflow_threshold"
  shows "rd x = Finite (nearest x)"
proof -
  have "nearest x \<le> 2 ^ 1024 - 2 ^ 971" by (rule nearest_below_threshold [OF assms])
  moreover have "0 \<le> nearest x" by (rule nearest_nonneg [OF assms(1)])
  ultimately have "\<bar>nearest x\<bar> < 2 ^ 1024" by simp
  then show ?thesis by (simp add: rd_def)
qed

lemma rd_pos_cases:
  assumes "0 \<le> x"
  shows "rd x = Finite (nearest x) \<and> 0 \<le> nearest x \<and> nearest x < 2 ^ 1024 \<or> rd x = PInf"
proof (cases "x = 0")
  case True
  then show ?thesis by (simp add: rd_def)
next
  case False
  then have "0 < x" using assms by simp
  then show ?thesis using nearest_nonneg [OF assms] by (auto simp: rd_def)
qed

lemma rd_nonpos_cases:
  assumes "x \<le> 0"
  shows "rd x = Finite (nearest x) \<and> nearest x \<le> 0 \<and> - (2 ^ 1024) < nearest x \<or> rd x = NInf"
  using nearest_le_zero [OF assms] assms by (auto simp: rd_def)

lemma rd_between:
  assumes "0 \<le> x" "x \<le> y" "rd y = Finite b"
  shows "rd x = Finite (nearest x) \<and> 0 \<le> nearest x \<and> nearest x \<le> b"
proof -
  have b: "b = nearest y" "\<bar>nearest y\<bar> < 2 ^ 1024" using assms(3) by (simp_all add: rd_Finite_iff)
  have "0 \<le> nearest x" by (rule nearest_nonneg [OF assms(1)])
  moreover have "nearest x \<le> nearest y" by (rule nearest_mono [OF assms(2)])
  ultimately show ?thesis using b by (simp add: rd_def)
qed


section \<open>The constants\<close>

lemma w_nth:
  "w ! 0 = 2.5" "w ! 6 = 0.7" "w ! 7 = 0.5" "w ! 8 = 0.1" "w ! 9 = 0.1" "w ! 10 = 0.1" "w ! 15 = 0.6"
  by (simp_all add: w_def)

text \<open>
  The double of \<^verbatim>\<open>-0.4\<close>, the exponent \<^verbatim>\<open>1 / DECAY\<close>, which is exactly \<open>-5/2\<close>, the
  double of \<^verbatim>\<open>0.9\<close>, and \<open>FACTOR\<close>, about 0.3013488313450119.
\<close>

lemma DECAY_eq: "DECAY = - (7205759403792794 / 2 ^ 54)"
proof -
  have "nearest (- 0.4) = of_int (py_round (- 0.4 / 2 powr of_int (- 2 - 52))) * 2 powr of_int (- 2 - 52)"
    by (rule nearest_eval) (simp_all add: powr_minus)
  also have "\<dots> = - (7205759403792794 / 2 ^ 54)"
    by (simp add: powr_minus py_round_def Let_def)
  finally show ?thesis by (simp add: DECAY_def)
qed

lemma inv_DECAY: "nearest (1 / DECAY) = - 5 / 2"
proof -
  have "nearest (1 / DECAY)
          = of_int (py_round (1 / DECAY / 2 powr of_int (1 - 52))) * 2 powr of_int (1 - 52)"
    by (rule nearest_eval) (simp_all add: DECAY_eq)
  also have "\<dots> = - 5 / 2"
    by (simp add: DECAY_eq powr_minus py_round_def Let_def)
  finally show ?thesis .
qed

lemma nearest_09: "7 / 8 \<le> nearest 0.9" "nearest 0.9 \<le> 29 / 32"
proof -
  show "7 / 8 \<le> nearest 0.9" using nearest_ge [of 7 "- 3" "0.9"] by (simp add: powr_minus)
  show "nearest 0.9 \<le> 29 / 32" using nearest_le [of "0.9" 29 "- 5"] by (simp add: powr_minus)
qed

lemma FACTOR_bounds: "1 / 8 \<le> FACTOR" "FACTOR \<le> 1 / 2"
proof -
  let ?a = "nearest 0.9"
  have a: "0 < ?a" "?a < 1" using nearest_09 by linarith+
  let ?p = "?a powr (- 5 / 2)"
  have "(32 / 29) powr 2 \<le> (1 / ?a) powr 2"
    using a nearest_09 by (intro powr_mono2) (simp_all add: field_simps)
  also have "\<dots> \<le> (1 / ?a) powr (5 / 2)" using a by (intro powr_mono) simp_all
  also have "\<dots> = ?p" using a by (simp add: powr_divide powr_minus field_simps)
  finally have lo: "9 / 8 \<le> ?p" by (simp add: power2_eq_square)
  have "?p = (1 / ?a) powr (5 / 2)" using a by (simp add: powr_divide powr_minus field_simps)
  also have "\<dots> \<le> (1 / ?a) powr 3" using a by (intro powr_mono) simp_all
  also have "\<dots> \<le> (8 / 7) powr 3"
    using a nearest_09 by (intro powr_mono2) (simp_all add: field_simps)
  finally have hi: "?p \<le> 3 / 2" by (simp add: power3_eq_cube)
  have "9 / 8 \<le> nearest ?p" using nearest_ge [of 9 "- 3" ?p] lo by (simp add: powr_minus)
  moreover have "nearest ?p \<le> 3 / 2" using nearest_le [of ?p 3 "- 1"] hi by (simp add: powr_minus)
  ultimately have "1 / 8 \<le> nearest ?p - 1" "nearest ?p - 1 \<le> 1 / 2" by linarith+
  then have "1 / 8 \<le> nearest (nearest ?p - 1)" "nearest (nearest ?p - 1) \<le> 1 / 2"
    using nearest_ge [of 1 "- 3" "nearest ?p - 1"] nearest_le [of "nearest ?p - 1" 1 "- 1"]
    by (simp_all add: powr_minus)
  then show "1 / 8 \<le> FACTOR" "FACTOR \<le> 1 / 2" by (simp_all add: FACTOR_def inv_DECAY)
qed

lemma FACTOR_pos: "0 < FACTOR"
  using FACTOR_bounds by linarith

lemma nearest_09_eq: "nearest 0.9 = 8106479329266893 / 2 ^ 53"
proof -
  have "nearest 0.9 = of_int (py_round (0.9 / 2 powr of_int (- 1 - 52))) * 2 powr of_int (- 1 - 52)"
    by (rule nearest_eval) (simp_all add: powr_minus)
  also have "\<dots> = 8106479329266893 / 2 ^ 53"
    by (simp add: powr_minus py_round_def Let_def)
  finally show ?thesis .
qed

lemma power_09: "nearest (nearest 0.9 powr (- (5 / 2))) = 5860754111924426 / 2 ^ 52"
proof -
  let ?a = "8106479329266893 / 2 ^ 53 :: real"
  let ?p = "?a powr (- (5 / 2))"
  have sq: "?p ^ 2 = 1 / ?a ^ 5"
  proof -
    have "?p ^ 2 = ?p powr 2" by (simp add: powr_numeral)
    also have "\<dots> = ?a powr (- 5)" by (simp add: powr_powr)
    also have "\<dots> = 1 / ?a powr 5" by (simp add: powr_minus field_simps)
    also have "?a powr 5 = ?a ^ 5" by (simp add: powr_numeral)
    finally show ?thesis .
  qed
  have lo: "(5860754111924426 - 1 / 2) / 2 ^ 52 < ?p"
  proof (rule power2_less_imp_less)
    show "((5860754111924426 - 1 / 2) / 2 ^ 52) ^ 2 < ?p ^ 2"
      unfolding sq by (simp add: power_divide)
    show "0 \<le> ?p" by simp
  qed
  have hi: "?p < (5860754111924426 + 1 / 2) / 2 ^ 52"
  proof (rule power2_less_imp_less)
    show "?p ^ 2 < ((5860754111924426 + 1 / 2) / 2 ^ 52) ^ 2"
      unfolding sq by (simp add: power_divide)
    show "0 \<le> (5860754111924426 + 1 / 2) / (2 ^ 52 :: real)" by simp
  qed
  have b: "2 powr of_int 0 \<le> \<bar>?p\<bar>" "\<bar>?p\<bar> < 2 powr of_int (0 + 1)"
    using lo hi by simp_all
  have "nearest ?p = of_int (py_round (?p / 2 powr of_int (0 - 52))) * 2 powr of_int (0 - 52)"
    by (rule nearest_eval [OF b]) simp
  moreover have "py_round (?p / 2 powr of_int (0 - 52)) = 5860754111924426"
    using lo hi by (intro py_round_eq) (simp_all add: powr_minus field_simps)
  ultimately have "nearest ?p = 5860754111924426 / 2 ^ 52" by (simp add: powr_minus)
  then show ?thesis by (simp add: nearest_09_eq)
qed

lemma FACTOR_eq: "FACTOR = 678577242276965 / 2 ^ 51"
proof -
  have "nearest (5860754111924426 / 2 ^ 52 - 1) = 5860754111924426 / 2 ^ 52 - 1"
    by (rule nearest_exact [of _ 678577242276965 "- 51"]) (simp_all add: powr_minus)
  then show ?thesis by (simp add: FACTOR_def inv_DECAY power_09)
qed


section \<open>The interval\<close>

lemma powr_retention_antimono:
  assumes "0 < r1" "r1 \<le> (r2::real)"
  shows "r2 powr (- (5 / 2)) \<le> r1 powr (- (5 / 2))"
  using assms by (intro powr_mono2') simp_all

lemma retention_term_finite:
  assumes "0 < r" "r powr (- (5 / 2)) < overflow_threshold"
  shows "rd (nearest (r powr (- (5 / 2))) - 1) = Finite (retention_term r)"
proof -
  let ?v = "nearest (r powr (- (5 / 2)))"
  have v: "0 \<le> ?v" "?v \<le> 2 ^ 1024 - 2 ^ 971"
    using nearest_nonneg [of "r powr (- (5 / 2))"] nearest_below_threshold [OF _ assms(2)] by simp_all
  show ?thesis
  proof (cases "1 \<le> ?v")
    case True
    then have "rd (?v - 1) = Finite (nearest (?v - 1))"
      using v by (intro rd_below_threshold) (simp_all add: overflow_threshold_def)
    then show ?thesis by (simp add: retention_term_def)
  next
    case False
    then have "\<bar>?v - 1\<bar> \<le> 2 powr of_int 0" using v by simp
    then have "rd (?v - 1) = Finite (nearest (?v - 1))" by (rule rd_bounded(1)) simp_all
    then show ?thesis by (simp add: retention_term_def)
  qed
qed

lemma retention_term_antimono:
  assumes "0 < r1" "r1 \<le> r2"
  shows "retention_term r2 \<le> retention_term r1"
  unfolding retention_term_def
  by (intro nearest_mono diff_right_mono powr_retention_antimono assms)

lemma retention_term_one [simp]: "retention_term 1 = 0"
  by (simp add: retention_term_def)

lemma retention_term_nonneg: "0 < r \<Longrightarrow> r \<le> 1 \<Longrightarrow> 0 \<le> retention_term r"
  using retention_term_antimono [of r 1] by simp

lemma retention_term_nonpos: "1 \<le> r \<Longrightarrow> retention_term r \<le> 0"
  using retention_term_antimono [of 1 r] by simp

lemma retention_term_pos:
  assumes "0 < r" "r \<le> 1 - 2 powr (- 53)"
  shows "2 powr (- 52) \<le> retention_term r"
proof -
  let ?e = "1 - 2 powr (- 53) :: real"
  have e: "0 < ?e" "?e < 1" by (simp_all add: powr_minus)
  have "1 + 2 powr (- 52) \<le> (1 / ?e) powr 2"
    by (simp add: powr_minus power2_eq_square field_simps)
  also have "\<dots> \<le> (1 / ?e) powr (5 / 2)" using e by (intro powr_mono) simp_all
  also have "\<dots> = ?e powr (- (5 / 2))" using e by (simp add: powr_divide powr_minus field_simps)
  also have "\<dots> \<le> r powr (- (5 / 2))" by (rule powr_retention_antimono [OF assms])
  finally have "of_int 4503599627370497 * 2 powr of_int (- 52) \<le> r powr (- (5 / 2))"
    by (simp add: powr_minus field_simps)
  then have "of_int 4503599627370497 * 2 powr of_int (- 52) \<le> nearest (r powr (- (5 / 2)))"
    by (rule nearest_ge) simp_all
  then have "of_int 1 * 2 powr of_int (- 52) \<le> nearest (r powr (- (5 / 2))) - 1"
    by (simp add: powr_minus field_simps)
  then have "of_int 1 * 2 powr of_int (- 52) \<le> nearest (nearest (r powr (- (5 / 2))) - 1)"
    by (rule nearest_ge) simp_all
  then show ?thesis by (simp add: retention_term_def)
qed

lemma retention_term_09: "retention_term (nearest 0.9) = FACTOR"
  by (simp add: retention_term_def FACTOR_def inv_DECAY)

lemma next_interval_pow_overflow:
  assumes "0 < r" "overflow_threshold \<le> r powr (- (5 / 2))"
  shows "next_interval s r = Inl OverflowError"
  using assms FACTOR_pos
  by (simp add: next_interval_def raw_interval_def float_div_def float_pow_def inv_DECAY)

lemma raw_interval_unfold:
  assumes "0 < r" "r powr (- (5 / 2)) < overflow_threshold"
  shows "raw_interval s r = Inr (Some (fl_mul (rd (s / FACTOR)) (Finite (retention_term r))))"
proof -
  have p: "rd (r powr (- (5 / 2))) = Finite (nearest (r powr (- (5 / 2))))"
    using assms by (intro rd_below_threshold) simp_all
  show ?thesis
    using assms FACTOR_pos retention_term_finite [OF assms]
    by (simp add: raw_interval_def float_div_def float_pow_def inv_DECAY p fl_sub_def)
qed

lemma next_interval_unfold:
  assumes "0 < r" "r powr (- (5 / 2)) < overflow_threshold"
  shows "next_interval s r
           = clamp_interval (fl_mul (rd (s / FACTOR)) (Finite (retention_term r)))"
proof -
  have p: "rd (r powr (- (5 / 2))) = Finite (nearest (r powr (- (5 / 2))))"
    using assms by (intro rd_below_threshold) simp_all
  have "raw_interval s r
          = Inr (Some (fl_mul (rd (s / FACTOR)) (Finite (retention_term r))))"
    using assms FACTOR_pos retention_term_finite [OF assms]
    by (simp add: raw_interval_def float_div_def float_pow_def inv_DECAY p fl_sub_def)
  then show ?thesis
    by (simp add: next_interval_def clamp_interval_def maximum_interval_def interval_cap_def
        split: pyfloat.splits)
qed

lemma next_interval_of_raw:
  "raw_interval s r = Inr (Some y) \<Longrightarrow> next_interval s r = clamp_interval y"
  by (simp add: next_interval_def clamp_interval_def maximum_interval_def interval_cap_def
      split: pyfloat.splits)

lemma clamp_interval_range:
  "clamp_interval y = Inr n \<Longrightarrow> 1 \<le> n \<and> n \<le> 365"
  by (auto simp: clamp_interval_def split: pyfloat.splits)

lemma next_interval_outcomes:
  assumes "0 < s" "0 < r"
  shows "(\<exists>n. next_interval s r = Inr n \<and> 1 \<le> n \<and> n \<le> 365)
         \<or> next_interval s r = Inl OverflowError
         \<or> (next_interval s r = Inl ValueError \<and> retention_term r = 0)"
proof (cases "r powr (- (5 / 2)) < overflow_threshold")
  case False
  then show ?thesis using next_interval_pow_overflow [OF assms(2), of s] by simp
next
  case True
  note u = next_interval_unfold [OF assms(2) True, of s]
  have q: "0 \<le> s / FACTOR" using assms(1) FACTOR_pos by simp
  from rd_pos_cases [OF q] show ?thesis
  proof
    assume a: "rd (s / FACTOR) = Finite (nearest (s / FACTOR)) \<and> 0 \<le> nearest (s / FACTOR)
        \<and> nearest (s / FACTOR) < 2 ^ 1024"
    show ?thesis
      using rd_cases [of "nearest (s / FACTOR) * retention_term r"] a
      by (auto simp: u clamp_interval_def)
  next
    assume "rd (s / FACTOR) = PInf"
    then show ?thesis by (auto simp: u clamp_interval_def)
  qed
qed

lemma clamp_interval_outcomes:
  "(\<exists>n. clamp_interval y = Inr n \<and> 1 \<le> n \<and> n \<le> 365)
   \<or> clamp_interval y = Inl OverflowError \<or> clamp_interval y = Inl ValueError"
  by (cases y) (simp_all add: clamp_interval_def)

lemma next_interval_outcomes_any:
  assumes "0 < r"
  shows "(\<exists>n. next_interval s r = Inr n \<and> 1 \<le> n \<and> n \<le> 365)
         \<or> next_interval s r = Inl OverflowError \<or> next_interval s r = Inl ValueError"
proof (cases "r powr (- (5 / 2)) < overflow_threshold")
  case False
  then show ?thesis using next_interval_pow_overflow [OF assms, of s] by simp
next
  case True
  show ?thesis
    unfolding next_interval_unfold [OF assms True] by (rule clamp_interval_outcomes)
qed

lemma next_interval_mono_stability:
  assumes "0 < r" "r \<le> 1" "0 < s1" "s1 \<le> s2" "next_interval s2 r = Inr n2"
  shows "\<exists>n1. next_interval s1 r = Inr n1 \<and> n1 \<le> n2"
proof -
  have p: "r powr (- (5 / 2)) < overflow_threshold"
    using next_interval_pow_overflow [OF assms(1), of s2] assms(5) by fastforce
  let ?w = "retention_term r"
  have w: "0 \<le> ?w" by (rule retention_term_nonneg [OF assms(1,2)])
  have u2: "clamp_interval (fl_mul (rd (s2 / FACTOR)) (Finite ?w)) = Inr n2"
    using next_interval_unfold [OF assms(1) p, of s2] assms(5) by simp
  have q: "0 \<le> s1 / FACTOR" "s1 / FACTOR \<le> s2 / FACTOR"
    using assms(3,4) FACTOR_pos by (simp_all add: divide_right_mono)
  then have q2: "0 \<le> s2 / FACTOR" by linarith
  from rd_pos_cases [OF q2] u2 obtain a2 where a2: "rd (s2 / FACTOR) = Finite a2"
    by (auto simp: clamp_interval_def split: if_splits)
  from rd_between [OF q a2] have a1: "rd (s1 / FACTOR) = Finite (nearest (s1 / FACTOR))"
    "0 \<le> nearest (s1 / FACTOR)" "nearest (s1 / FACTOR) \<le> a2" by simp_all
  let ?a1 = "nearest (s1 / FACTOR)"
  from u2 a2 obtain x2 where x2: "rd (a2 * ?w) = Finite x2" "n2 = min (max (py_round x2) 1) 365"
    by (auto simp: clamp_interval_def split: pyfloat.splits)
  have "0 \<le> ?a1 * ?w" "?a1 * ?w \<le> a2 * ?w" using a1 w by (simp_all add: mult_right_mono)
  from rd_between [OF this x2(1)] have x1: "rd (?a1 * ?w) = Finite (nearest (?a1 * ?w))"
    "nearest (?a1 * ?w) \<le> x2" by simp_all
  have "next_interval s1 r = Inr (min (max (py_round (nearest (?a1 * ?w))) 1) 365)"
    using next_interval_unfold [OF assms(1) p, of s1] a1(1) x1(1)
    by (simp add: clamp_interval_def)
  moreover have "py_round (nearest (?a1 * ?w)) \<le> py_round x2" by (rule py_round_mono [OF x1(2)])
  ultimately show ?thesis using x2(2) by simp
qed

lemma next_interval_antimono_retention:
  assumes "0 < s" "0 < r1" "r1 \<le> r2" "r2 \<le> 1" "next_interval s r1 = Inr n1"
  shows "\<exists>n2. next_interval s r2 = Inr n2 \<and> n2 \<le> n1"
proof -
  have r2: "0 < r2" using assms by linarith
  have p1: "r1 powr (- (5 / 2)) < overflow_threshold"
    using next_interval_pow_overflow [OF assms(2), of s] assms(5) by fastforce
  have p2: "r2 powr (- (5 / 2)) < overflow_threshold"
    using powr_retention_antimono [OF assms(2,3)] p1 by linarith
  let ?w1 = "retention_term r1" and ?w2 = "retention_term r2"
  have w: "0 \<le> ?w2" "?w2 \<le> ?w1"
    using retention_term_nonneg [OF r2 assms(4)] retention_term_antimono [OF assms(2,3)] by simp_all
  have u1: "clamp_interval (fl_mul (rd (s / FACTOR)) (Finite ?w1)) = Inr n1"
    using next_interval_unfold [OF assms(2) p1, of s] assms(5) by simp
  have q: "0 \<le> s / FACTOR" using assms(1) FACTOR_pos by simp
  from rd_pos_cases [OF q] u1 obtain a where a: "rd (s / FACTOR) = Finite a" "0 \<le> a"
    by (auto simp: clamp_interval_def split: if_splits)
  from u1 a obtain x1 where x1: "rd (a * ?w1) = Finite x1" "n1 = min (max (py_round x1) 1) 365"
    by (auto simp: clamp_interval_def split: pyfloat.splits)
  have "0 \<le> a * ?w2" "a * ?w2 \<le> a * ?w1" using a w by (simp_all add: mult_left_mono)
  from rd_between [OF this x1(1)] have x2: "rd (a * ?w2) = Finite (nearest (a * ?w2))"
    "nearest (a * ?w2) \<le> x1" by simp_all
  have "next_interval s r2 = Inr (min (max (py_round (nearest (a * ?w2))) 1) 365)"
    using next_interval_unfold [OF r2 p2, of s] a(1) x2(1)
    by (simp add: clamp_interval_def)
  moreover have "py_round (nearest (a * ?w2)) \<le> py_round x1" by (rule py_round_mono [OF x2(2)])
  ultimately show ?thesis using x1(2) by simp
qed

lemma powr_bound_500:
  assumes "2 powr (- 200) \<le> (r::real)"
  shows "r powr (- (5 / 2)) \<le> 2 powr 500"
proof -
  have "r powr (- (5 / 2)) \<le> (2 powr (- 200)) powr (- (5 / 2))"
    using assms by (intro powr_retention_antimono) simp_all
  also have "\<dots> = 2 powr 500" by (simp add: powr_powr)
  finally show ?thesis .
qed

lemma next_interval_returns:
  assumes "\<bar>s\<bar> \<le> 2 ^ 500" "2 powr (- 200) \<le> r"
  shows "\<exists>n. next_interval s r = Inr n \<and> 1 \<le> n \<and> n \<le> 365"
proof -
  have r: "0 < r" using assms(2) by (smt (verit) powr_gt_zero)
  let ?p = "r powr (- (5 / 2))"
  have p: "?p \<le> 2 powr 500" by (rule powr_bound_500 [OF assms(2)])
  then have pt: "?p < overflow_threshold" by (simp add: overflow_threshold_def)
  have "\<bar>?p\<bar> \<le> 2 powr of_int 500" using p by simp
  then have "\<bar>nearest ?p\<bar> \<le> 2 powr of_int 500" by (rule rd_bounded(2)) simp_all
  then have "\<bar>nearest ?p - 1\<bar> \<le> 2 powr of_int 501" by simp
  then have "\<bar>nearest (nearest ?p - 1)\<bar> \<le> 2 powr of_int 501" by (rule rd_bounded(2)) simp_all
  then have w: "\<bar>retention_term r\<bar> \<le> 2 ^ 501" by (simp add: retention_term_def)
  have "\<bar>s\<bar> / FACTOR \<le> \<bar>s\<bar> / (1 / 8)"
    using FACTOR_bounds(1) by (intro divide_left_mono) simp_all
  then have "\<bar>s / FACTOR\<bar> \<le> \<bar>s\<bar> * 8"
    using FACTOR_pos by simp
  also have "\<dots> \<le> 2 ^ 500 * 8" using assms(1) by simp
  finally have q: "\<bar>s / FACTOR\<bar> \<le> 2 powr of_int 503" by simp
  have a: "rd (s / FACTOR) = Finite (nearest (s / FACTOR))"
    "\<bar>nearest (s / FACTOR)\<bar> \<le> 2 powr of_int 503"
    using rd_bounded [OF q] by simp_all
  have "\<bar>nearest (s / FACTOR) * retention_term r\<bar> \<le> 2 powr of_int 503 * 2 ^ 501"
    unfolding abs_mult using a(2) w by (intro mult_mono) simp_all
  also have "\<dots> = 2 powr of_int 1004" by simp
  finally have "rd (nearest (s / FACTOR) * retention_term r)
      = Finite (nearest (nearest (s / FACTOR) * retention_term r))"
    by (rule rd_bounded(1)) simp_all
  then show ?thesis
    using next_interval_unfold [OF r pt, of s] a(1) by (simp add: clamp_interval_def)
qed

lemma next_interval_factor_ge_one:
  assumes "0 < s" "s \<le> 2 ^ 1020" "1 \<le> r"
  shows "\<exists>x. raw_interval s r = Inr (Some (Finite x)) \<and> x \<le> 0 \<and> next_interval s r = Inr 1"
proof -
  have r: "0 < r" using assms(3) by linarith
  have "r powr (- (5 / 2)) \<le> 1 powr (- (5 / 2))"
    using assms(3) by (intro powr_retention_antimono) simp_all
  then have p: "r powr (- (5 / 2)) \<le> 1" by simp
  then have pt: "r powr (- (5 / 2)) < overflow_threshold" by (simp add: overflow_threshold_def)
  let ?w = "retention_term r"
  have "nearest (r powr (- (5 / 2))) \<le> 1" using nearest_mono [OF p] by simp
  moreover have "0 \<le> nearest (r powr (- (5 / 2)))" by (intro nearest_nonneg) simp
  ultimately have "- 1 \<le> nearest (r powr (- (5 / 2))) - 1" by linarith
  then have "nearest (- 1) \<le> ?w" unfolding retention_term_def by (rule nearest_mono)
  then have w: "- 1 \<le> ?w" "?w \<le> 0"
    using retention_term_nonpos [OF assms(3)] by (simp_all add: nearest_minus)
  have "s / FACTOR \<le> s / (1 / 8)"
    using FACTOR_bounds(1) assms(1) by (intro divide_left_mono) simp_all
  then have "\<bar>s / FACTOR\<bar> \<le> 2 powr of_int 1023" using assms(1,2) FACTOR_pos by simp
  from rd_bounded [OF this] have a: "rd (s / FACTOR) = Finite (nearest (s / FACTOR))"
    "\<bar>nearest (s / FACTOR)\<bar> \<le> 2 powr of_int 1023" by simp_all
  let ?a = "nearest (s / FACTOR)"
  have a0: "0 \<le> ?a" using assms(1) FACTOR_pos by (intro nearest_nonneg) simp
  have "\<bar>?a * ?w\<bar> \<le> 2 powr of_int 1023 * 1"
    unfolding abs_mult using a(2) w by (intro mult_mono) simp_all
  then have "\<bar>?a * ?w\<bar> \<le> 2 powr of_int 1023" by simp
  from rd_bounded(1) [OF this] have x: "rd (?a * ?w) = Finite (nearest (?a * ?w))" by simp
  have "?a * ?w \<le> 0" using a0 w(2) by (simp add: mult_nonneg_nonpos)
  then have x0: "nearest (?a * ?w) \<le> 0" by (rule nearest_le_zero)
  then have "py_round (nearest (?a * ?w)) \<le> py_round 0" by (rule py_round_mono)
  then have "py_round (nearest (?a * ?w)) \<le> 0" by (simp add: py_round_def)
  then show ?thesis
    using raw_interval_unfold [OF r pt, of s] next_interval_unfold [OF r pt, of s] a(1) x x0
    by (simp add: clamp_interval_def)
qed


text \<open>
  Where a tie of the exact value would round to the even neighbour, the doubles decide:
  for the retention 0.9 the product is just below 1.5 at the stability 1.5, and the
  interval is 1; it is just above 6.5 at the stability 6.5, and the interval is 7. With
  a stability of \<open>2 ^ 1023\<close> and the retention 1 the quotient is
  infinite and the other factor zero: the product is NaN and \<^verbatim>\<open>round\<close> raises ValueError.
\<close>

lemma next_interval_tie_below:
  "next_interval (3 / 2) (nearest 0.9) = Inr 1"
proof -
  have r: "0 < nearest 0.9" by (simp add: nearest_09_eq)
  have "nearest 0.9 powr (- (5 / 2)) \<le> 2 powr 500"
    by (rule powr_bound_500) (simp add: nearest_09_eq powr_minus)
  then have pt: "nearest 0.9 powr (- (5 / 2)) < overflow_threshold"
    by (simp add: overflow_threshold_def)
  let ?q = "3 / 2 / FACTOR"
  have q: "nearest ?q = 5604302006834017 / 2 ^ 50"
  proof -
    have "nearest ?q = of_int (py_round (?q / 2 powr of_int (2 - 52))) * 2 powr of_int (2 - 52)"
      by (rule nearest_eval) (simp_all add: FACTOR_eq)
    also have "\<dots> = 5604302006834017 / 2 ^ 50"
      by (simp add: FACTOR_eq powr_minus py_round_def Let_def)
    finally show ?thesis .
  qed
  have rq: "rd ?q = Finite (5604302006834017 / 2 ^ 50)" unfolding rd_def q by simp
  let ?x = "5604302006834017 / 2 ^ 50 * FACTOR"
  have x: "nearest ?x = 6755399441055743 / 2 ^ 52"
  proof -
    have "nearest ?x = of_int (py_round (?x / 2 powr of_int (0 - 52))) * 2 powr of_int (0 - 52)"
      by (rule nearest_eval) (simp_all add: FACTOR_eq)
    also have "\<dots> = 6755399441055743 / 2 ^ 52"
      by (simp add: FACTOR_eq powr_minus py_round_def Let_def)
    finally show ?thesis .
  qed
  have rx: "rd ?x = Finite (6755399441055743 / 2 ^ 52)" unfolding rd_def x by simp
  have "py_round (6755399441055743 / 2 ^ 52) = 1" by (simp add: py_round_def Let_def)
  then show ?thesis
    unfolding next_interval_unfold [OF r pt] retention_term_09 rq fl_mul.simps rx
      clamp_interval_def
    by simp
qed

lemma next_interval_tie_above:
  "next_interval (13 / 2) (nearest 0.9) = Inr 7"
proof -
  have r: "0 < nearest 0.9" by (simp add: nearest_09_eq)
  have "nearest 0.9 powr (- (5 / 2)) \<le> 2 powr 500"
    by (rule powr_bound_500) (simp add: nearest_09_eq powr_minus)
  then have pt: "nearest 0.9 powr (- (5 / 2)) < overflow_threshold"
    by (simp add: overflow_threshold_def)
  let ?q = "13 / 2 / FACTOR"
  have q: "nearest ?q = 3035663587035093 / 2 ^ 47"
  proof -
    have "nearest ?q = of_int (py_round (?q / 2 powr of_int (4 - 52))) * 2 powr of_int (4 - 52)"
      by (rule nearest_eval) (simp_all add: FACTOR_eq)
    also have "\<dots> = 3035663587035093 / 2 ^ 47"
      by (simp add: FACTOR_eq powr_minus py_round_def Let_def)
    finally show ?thesis .
  qed
  have rq: "rd ?q = Finite (3035663587035093 / 2 ^ 47)" unfolding rd_def q by simp
  let ?x = "3035663587035093 / 2 ^ 47 * FACTOR"
  have x: "nearest ?x = 7318349394477057 / 2 ^ 50"
  proof -
    have "nearest ?x = of_int (py_round (?x / 2 powr of_int (2 - 52))) * 2 powr of_int (2 - 52)"
      by (rule nearest_eval) (simp_all add: FACTOR_eq)
    also have "\<dots> = 7318349394477057 / 2 ^ 50"
      by (simp add: FACTOR_eq powr_minus py_round_def Let_def)
    finally show ?thesis .
  qed
  have rx: "rd ?x = Finite (7318349394477057 / 2 ^ 50)" unfolding rd_def x by simp
  have "py_round (7318349394477057 / 2 ^ 50) = 7" by (simp add: py_round_def Let_def)
  then show ?thesis
    unfolding next_interval_unfold [OF r pt] retention_term_09 rq fl_mul.simps rx
      clamp_interval_def
    by (simp add: maximum_interval_def interval_cap_def)
qed

lemma next_interval_not_a_number:
  "next_interval (2 ^ 1023) 1 = Inl ValueError"
proof -
  have pt: "(1::real) powr (- (5 / 2)) < overflow_threshold"
    by (simp add: overflow_threshold_def)
  have "2 ^ 1023 / (1 / 2) \<le> 2 ^ 1023 / FACTOR"
    using FACTOR_bounds(2) FACTOR_pos by (intro divide_left_mono) simp_all
  then have "2 ^ 1024 \<le> 2 ^ 1023 / FACTOR" by simp
  then have "rd (2 ^ 1023 / FACTOR) = PInf" by (rule rd_overflow)
  then show ?thesis
    using next_interval_unfold [OF _ pt, of "2 ^ 1023"] by (simp add: clamp_interval_def)
qed


text \<open>
  Claim C4, as stated, fails: \<open>2 ^ 1023\<close> is a positive finite double and the retention
  target 1/2 lies between 0 and 1, but the quotient of the stability by \<open>FACTOR\<close> is
  infinite, and \<^verbatim>\<open>round\<close> raises OverflowError.
\<close>

theorem next_interval_stability_overflow:
  "next_interval (2 ^ 1023) (1 / 2) = Inl OverflowError"
proof -
  have p: "(1 / 2) powr (- (5 / 2)) = (2::real) powr (5 / 2)"
    by (simp add: powr_divide powr_minus field_simps)
  have "(2::real) powr (5 / 2) \<le> 2 powr 3" by (intro powr_mono) simp_all
  then have pt: "(1 / 2) powr (- (5 / 2)) < overflow_threshold"
    unfolding p by (simp add: overflow_threshold_def)
  have "(2::real) powr 2 \<le> 2 powr (5 / 2)" by (intro powr_mono) simp_all
  then have "of_int 4 * 2 powr of_int 0 \<le> (1 / 2 :: real) powr (- (5 / 2))"
    unfolding p by simp
  then have "of_int 4 * 2 powr of_int 0 \<le> nearest ((1 / 2) powr (- (5 / 2)))"
    by (rule nearest_ge) simp_all
  then have "of_int 3 * 2 powr of_int 0 \<le> nearest ((1 / 2) powr (- (5 / 2))) - 1" by simp
  then have "of_int 3 * 2 powr of_int 0 \<le> nearest (nearest ((1 / 2) powr (- (5 / 2))) - 1)"
    by (rule nearest_ge) simp_all
  then have w: "0 < retention_term (1 / 2)" by (simp add: retention_term_def)
  have "2 ^ 1023 / (1 / 2) \<le> 2 ^ 1023 / FACTOR"
    using FACTOR_bounds(2) FACTOR_pos by (intro divide_left_mono) simp_all
  then have "2 ^ 1024 \<le> 2 ^ 1023 / FACTOR" by simp
  then have "rd (2 ^ 1023 / FACTOR) = PInf" by (rule rd_overflow)
  then show ?thesis
    using next_interval_unfold [OF _ pt, of "2 ^ 1023"] w by (simp add: clamp_interval_def)
qed


text \<open>
  Claim C4, amended. For every positive stability and every retention target that is a
  double between 0 and 1 (so at most \<open>1 - 2 powr (-53)\<close>), \<open>next_interval\<close> either
  returns an integer between 1 and 365 or raises OverflowError; it returns whenever the
  stability is at most \<open>2 ^ 500\<close> and the retention target at least \<open>2 powr (-200)\<close>.
\<close>

theorem next_interval_range:
  assumes "0 < s" and "0 < r" and "r \<le> 1 - 2 powr (- 53)"
  shows "((\<exists>n. next_interval s r = Inr n \<and> 1 \<le> n \<and> n \<le> 365)
           \<or> next_interval s r = Inl OverflowError)
         \<and> (s \<le> 2 ^ 500 \<and> 2 powr (- 200) \<le> r \<longrightarrow>
              (\<exists>n. next_interval s r = Inr n \<and> 1 \<le> n \<and> n \<le> 365))"
proof
  have "0 < retention_term r" using retention_term_pos [OF assms(2,3)]
    by (smt (verit) powr_gt_zero)
  then show "(\<exists>n. next_interval s r = Inr n \<and> 1 \<le> n \<and> n \<le> 365)
           \<or> next_interval s r = Inl OverflowError"
    using next_interval_outcomes [OF assms(1,2)] by auto
  show "s \<le> 2 ^ 500 \<and> 2 powr (- 200) \<le> r \<longrightarrow>
              (\<exists>n. next_interval s r = Inr n \<and> 1 \<le> n \<and> n \<le> 365)"
    using next_interval_returns [of s r] assms(1) by auto
qed

theorem next_interval_range_witness:
  "(0::real) < 5 / 2 \<and> (0::real) < 3 / 4 \<and> (3 / 4 :: real) \<le> 1 - 2 powr (- 53)
   \<and> (5 / 2 :: real) \<le> 2 ^ 500 \<and> 2 powr (- 200) \<le> (3 / 4 :: real)
   \<and> (\<exists>n. next_interval (5 / 2) (3 / 4) = Inr n \<and> 1 \<le> n \<and> n \<le> 365)"
  using next_interval_range [of "5 / 2" "3 / 4"] by (simp add: powr_minus)


text \<open>
  Claim C5. For a fixed retention target strictly between 0 and 1: if the call at a
  positive stability returns, the call at every smaller positive stability returns too,
  with an interval that is not longer. For a fixed positive stability: if the call at a
  retention target returns, the call at every larger target below 1 returns too, with an
  interval that is not longer. So wherever two calls return, their intervals are ordered
  as claimed; a call that raises has no interval to compare.
\<close>

theorem next_interval_monotone:
  "(0 < r \<and> r < 1 \<and> 0 < s1 \<and> s1 \<le> s2 \<and> next_interval s2 r = Inr n2 \<longrightarrow>
      (\<exists>n1. next_interval s1 r = Inr n1 \<and> n1 \<le> n2))
   \<and> (0 < s \<and> 0 < r1 \<and> r1 \<le> r2 \<and> r2 < 1 \<and> next_interval s r1 = Inr m1 \<longrightarrow>
      (\<exists>m2. next_interval s r2 = Inr m2 \<and> m2 \<le> m1))"
  using next_interval_mono_stability [of r s1 s2 n2]
    next_interval_antimono_retention [of s r1 r2 m1]
  by auto

theorem next_interval_monotone_witness:
  "(\<exists>n1 n2. next_interval (5 / 2) (3 / 4) = Inr n1 \<and> next_interval 10 (3 / 4) = Inr n2
      \<and> n1 \<le> n2)
   \<and> (\<exists>m1 m2. next_interval (5 / 2) (3 / 4) = Inr m1 \<and> next_interval (5 / 2) (7 / 8) = Inr m2
      \<and> m2 \<le> m1)"
proof -
  obtain n2 where n2: "next_interval 10 (3 / 4) = Inr n2"
    using next_interval_returns [of 10 "3 / 4"] by (auto simp: powr_minus)
  obtain m1 where m1: "next_interval (5 / 2) (3 / 4) = Inr m1"
    using next_interval_returns [of "5 / 2" "3 / 4"] by (auto simp: powr_minus)
  note inst = next_interval_monotone [where r = "3 / 4" and ?s1.0 = "5 / 2" and ?s2.0 = 10
      and ?n2.0 = n2 and s = "5 / 2" and ?r1.0 = "3 / 4" and ?r2.0 = "7 / 8" and ?m1.0 = m1]
  from inst n2 obtain n1 where "next_interval (5 / 2) (3 / 4) = Inr n1" "n1 \<le> n2" by auto
  moreover from inst m1 obtain m2 where "next_interval (5 / 2) (7 / 8) = Inr m2" "m2 \<le> m1"
    by auto
  ultimately show ?thesis using n2 m1 by auto
qed


text \<open>
  Claim C10, as stated, fails: the retention factor \<open>2 powr (-700)\<close> is positive, but its
  power overflows and \<^verbatim>\<open>**\<close> raises OverflowError.
\<close>

theorem next_interval_power_overflow:
  "next_interval (5 / 2) (2 powr (- 700)) = Inl OverflowError"
proof -
  have "((2::real) powr (- 700)) powr (- (5 / 2)) = 2 powr 1750" by (simp add: powr_powr)
  then have "overflow_threshold \<le> ((2::real) powr (- 700)) powr (- (5 / 2))"
    by (simp add: overflow_threshold_def)
  then show ?thesis by (intro next_interval_pow_overflow) simp_all
qed


text \<open>
  Claim C10, amended. For every positive stability and every positive retention factor,
  \<open>next_interval\<close> returns an integer between 1 and 365 or raises OverflowError or
  ValueError, and nothing else; it returns whenever the stability is at most \<open>2 ^ 500\<close>
  and the factor at least \<open>2 powr (-200)\<close>. Whenever the unrounded interval rounds to a
  non-positive integer the result is 1; and for every factor of at least 1 and every
  stability up to \<open>2 ^ 1020\<close> the unrounded interval is not positive and the result is 1.
\<close>

theorem next_interval_total:
  assumes "0 < s" and "0 < r"
  shows "((\<exists>n. next_interval s r = Inr n \<and> 1 \<le> n \<and> n \<le> 365)
           \<or> next_interval s r = Inl OverflowError \<or> next_interval s r = Inl ValueError)
         \<and> (s \<le> 2 ^ 500 \<and> 2 powr (- 200) \<le> r \<longrightarrow>
              (\<exists>n. next_interval s r = Inr n \<and> 1 \<le> n \<and> n \<le> 365))
         \<and> (\<forall>x. raw_interval s r = Inr (Some (Finite x)) \<and> py_round x \<le> 0 \<longrightarrow>
              next_interval s r = Inr 1)
         \<and> (1 \<le> r \<and> s \<le> 2 ^ 1020 \<longrightarrow>
              (\<exists>x. raw_interval s r = Inr (Some (Finite x)) \<and> x \<le> 0)
              \<and> next_interval s r = Inr 1)"
proof (intro conjI)
  show "(\<exists>n. next_interval s r = Inr n \<and> 1 \<le> n \<and> n \<le> 365)
           \<or> next_interval s r = Inl OverflowError \<or> next_interval s r = Inl ValueError"
    using next_interval_outcomes [OF assms] by auto
  show "s \<le> 2 ^ 500 \<and> 2 powr (- 200) \<le> r \<longrightarrow>
              (\<exists>n. next_interval s r = Inr n \<and> 1 \<le> n \<and> n \<le> 365)"
    using next_interval_returns [of s r] assms(1) by auto
  show "\<forall>x. raw_interval s r = Inr (Some (Finite x)) \<and> py_round x \<le> 0 \<longrightarrow>
              next_interval s r = Inr 1"
    by (auto simp: next_interval_of_raw clamp_interval_def)
  show "1 \<le> r \<and> s \<le> 2 ^ 1020 \<longrightarrow>
              (\<exists>x. raw_interval s r = Inr (Some (Finite x)) \<and> x \<le> 0)
              \<and> next_interval s r = Inr 1"
    using next_interval_factor_ge_one [OF assms(1)] by blast
qed

theorem next_interval_total_witness:
  "(0::real) < 5 / 2 \<and> (0::real) < 51 / 50 \<and> (1::real) \<le> 51 / 50 \<and> (5 / 2 :: real) \<le> 2 ^ 1020
   \<and> (5 / 2 :: real) \<le> 2 ^ 500 \<and> 2 powr (- 200) \<le> (51 / 50 :: real)
   \<and> next_interval (5 / 2) (51 / 50) = Inr 1"
  using next_interval_total [of "5 / 2" "51 / 50"] by (simp add: powr_minus)


section \<open>The difficulty\<close>

text \<open>
  For a difficulty between 1 and 10 and a rating from 1 to 5 the clamp is idle: the value
  is the mean-reverted one.
\<close>

lemma next_difficulty_unclamped:
  assumes "1 \<le> d" and "d \<le> 10" and "1 \<le> rating" and "rating \<le> 5"
  shows "next_difficulty d rating = 2.5 + 0.5 * (d - 0.7 * of_int (rating - 3))"
proof -
  have r: "(1::real) \<le> of_int rating" "of_int rating \<le> (5::real)" using assms by simp_all
  have "1 \<le> 5 / 2 + (d - (7 * real_of_int rating - 21) / 10) / 2"
    using r assms(1,2) by (simp add: field_simps)
  moreover have "5 / 2 + (d - (7 * real_of_int rating - 21) / 10) / 2 \<le> 10"
    using r assms(1,2) by (simp add: field_simps)
  ultimately show ?thesis
    by (simp add: next_difficulty_def Let_def mean_reversion_def w_nth min_def max_def)
qed

text \<open>
  Claim C6. For every difficulty between 1 and 10 and every rating from 1 to 5,
  \<open>next_difficulty\<close> (the difficulty shifted by 0.7 times the rating centred at 3, pulled
  halfway back to 5.0, then clamped) lies between 1 and 10; there the clamp changes
  nothing.
\<close>

theorem next_difficulty_range:
  assumes "1 \<le> d" and "d \<le> 10" and "1 \<le> rating" and "rating \<le> 5"
  shows "1 \<le> next_difficulty d rating \<and> next_difficulty d rating \<le> 10
         \<and> next_difficulty d rating
             = min (max (0.5 * 5.0 + (1 - 0.5) * (d - 0.7 * of_int (rating - 3))) 1) 10
         \<and> next_difficulty d rating = 0.5 * 5.0 + (1 - 0.5) * (d - 0.7 * of_int (rating - 3))"
proof -
  have "next_difficulty d rating
          = min (max (0.5 * 5.0 + (1 - 0.5) * (d - 0.7 * of_int (rating - 3))) 1) 10"
    by (simp add: next_difficulty_def Let_def mean_reversion_def w_nth)
  moreover have "next_difficulty d rating
          = 0.5 * 5.0 + (1 - 0.5) * (d - 0.7 * of_int (rating - 3))"
    using next_difficulty_unclamped [OF assms] by simp
  moreover have "1 \<le> next_difficulty d rating \<and> next_difficulty d rating \<le> 10"
    by (simp add: next_difficulty_def Let_def)
  ultimately show ?thesis by blast
qed

theorem next_difficulty_range_witness:
  "(1::real) \<le> 5 \<and> (5::real) \<le> 10 \<and> (1::int) \<le> 3 \<and> (3::int) \<le> 5
   \<and> 1 \<le> next_difficulty 5 3 \<and> next_difficulty 5 3 \<le> 10 \<and> next_difficulty 5 3 = 5"
  using next_difficulty_range [of 5 3] by simp


section \<open>Properties of the session functions\<close>

lemma forgetting_curve_eq:
  assumes "0 < st" "0 \<le> el"
  shows "forgetting_curve el st = Inr (Some ((1 + FACTOR * el / st) powr DECAY))"
proof -
  have "0 \<le> FACTOR * el / st" using assms FACTOR_pos by simp
  then have b: "1 \<le> 1 + FACTOR * el / st" by linarith
  have "(1 + FACTOR * el / st) powr DECAY \<le> 1 powr DECAY"
    using b by (intro powr_mono2') (simp_all add: DECAY_eq)
  then have "(1 + FACTOR * el / st) powr DECAY < overflow_threshold"
    by (simp add: overflow_threshold_def)
  then show ?thesis
    using assms(1) b by (simp add: forgetting_curve_def float_div_def float_pow_def)
qed

lemma forgetting_curve_range:
  assumes "0 < st" "0 \<le> el"
  shows "0 < (1 + FACTOR * el / st) powr DECAY" "(1 + FACTOR * el / st) powr DECAY \<le> 1"
proof -
  have "0 \<le> FACTOR * el / st" using assms FACTOR_pos by simp
  then have b: "1 \<le> 1 + FACTOR * el / st" by linarith
  then show "0 < (1 + FACTOR * el / st) powr DECAY" by simp
  have "(1 + FACTOR * el / st) powr DECAY \<le> 1 powr DECAY"
    using b by (intro powr_mono2') (simp_all add: DECAY_eq)
  then show "(1 + FACTOR * el / st) powr DECAY \<le> 1" by simp
qed

lemma next_recall_stability_eq:
  assumes "0 < st"
  shows "next_recall_stability df st (Some R) rating =
     Inr (st * (1 + exp 0.1 * (11 - df) * st powr (- 0.1) * (exp ((1 - R) * 0.1) - 1))
             * (if rating = 2 then 0.6 else 1))"
  using assms by (simp add: next_recall_stability_def math_pow_def w_nth)

text \<open>
  For a stability between \<open>2 powr (-100)\<close> and \<open>2 ^ 400\<close>, a difficulty between 1 and 10
  and a retrievability between 0 and 1 the new stability is not negative and at most
  \<open>2 ^ 500\<close>, where \<open>next_interval\<close> returns.
\<close>

lemma next_recall_stability_bound:
  assumes "2 powr (- 100) \<le> st" "st \<le> 2 ^ 400" "1 \<le> df" "df \<le> 10" "0 < R" "R \<le> 1"
  shows "\<exists>sm. next_recall_stability df st (Some R) rating = Inr sm \<and> 0 \<le> sm \<and> sm \<le> 2 ^ 500"
proof -
  have st: "0 < st" using assms(1) by (smt (verit) powr_gt_zero)
  define A where "A = exp (0.1::real)"
  define B where "B = 11 - df"
  define C where "C = st powr (- 0.1)"
  define E where "E = exp ((1 - R) * 0.1) - 1"
  define P where "P = (if rating = 2 then 0.6 else (1::real))"
  have "exp (0.1::real) \<le> exp 1" by (subst exp_le_cancel_iff) simp
  then have "A \<le> 3" unfolding A_def using exp_le by linarith
  moreover have "0 \<le> A" by (simp add: A_def)
  ultimately have A: "0 \<le> A" "A \<le> 3" by simp_all
  have B: "0 \<le> B" "B \<le> 10" using assms(3,4) by (simp_all add: B_def)
  have "C \<le> (2 powr (- 100)) powr (- 0.1)"
    unfolding C_def using assms(1) by (intro powr_mono2') simp_all
  also have "\<dots> = 2 powr 10" by (simp add: powr_powr)
  finally have C: "0 \<le> C" "C \<le> 1024" by (simp_all add: C_def)
  have "exp ((1 - R) * 0.1) \<le> exp 1" using assms(5) by (subst exp_le_cancel_iff) simp
  then have "exp ((1 - R) * 0.1) \<le> 3" using exp_le by linarith
  moreover have "exp 0 \<le> exp ((1 - R) * 0.1)" using assms(6) by (subst exp_le_cancel_iff) simp
  ultimately have E: "0 \<le> E" "E \<le> 2" by (simp_all add: E_def)
  have AB0: "0 \<le> A * B" using A(1) B(1) by (rule mult_nonneg_nonneg)
  have AB1: "A * B \<le> 3 * 10" by (rule mult_mono) (use A B in simp_all)
  have ABC0: "0 \<le> A * B * C" using AB0 C(1) by (rule mult_nonneg_nonneg)
  have ABC1: "A * B * C \<le> 3 * 10 * 1024" by (rule mult_mono) (use AB1 C in simp_all)
  have ABCE0: "0 \<le> A * B * C * E" using ABC0 E(1) by (rule mult_nonneg_nonneg)
  have ABCE1: "A * B * C * E \<le> 3 * 10 * 1024 * 2" by (rule mult_mono) (use ABC1 E in simp_all)
  note ABCE = ABCE0 ABCE1
  define I where "I = 1 + A * B * C * E"
  have I: "0 \<le> I" "I \<le> 2 ^ 16" using ABCE by (simp_all add: I_def)
  have sI0: "0 \<le> st * I" using st I(1) by (intro mult_nonneg_nonneg) simp_all
  have sI1: "st * I \<le> 2 ^ 400 * 2 ^ 16" by (rule mult_mono) (use st I assms(2) in simp_all)
  note sI = sI0 sI1
  have P: "0 \<le> P" "P \<le> 1" by (simp_all add: P_def)
  have "st * I * P \<le> 2 ^ 400 * 2 ^ 16 * 1"
    by (rule mult_mono) (use sI P in simp_all)
  then have "st * I * P \<le> 2 ^ 500" by simp
  moreover have "0 \<le> st * I * P" using sI(1) P(1) by (rule mult_nonneg_nonneg)
  moreover have "next_recall_stability df st (Some R) rating = Inr (st * I * P)"
    using next_recall_stability_eq [OF st, of df R rating]
    by (simp add: I_def A_def B_def C_def E_def P_def)
  ultimately show ?thesis by simp
qed

lemma effective_retention_cases:
  "effective_retention cfg d =
     (if COMPANY_PREP_MODE cfg \<and> COMPANY_PREP_TARGET cfg = None then Inl KeyError
      else if COMPANY_PREP_MODE cfg \<and> the (COMPANY_PREP_TARGET cfg) \<notin> set (get_company_tags d)
        then Inl AttributeError
      else Inr (retention_factor d))"
  by (auto simp: effective_retention_def split: option.splits)

lemma effective_retention_Inr:
  "effective_retention cfg d = Inr rt \<Longrightarrow> rt = retention_factor d"
  by (auto simp: effective_retention_def split: option.splits if_splits)

lemma update_question_metrics_Inr:
  assumes "update_question_metrics cfg now d rating = Inr d'"
  shows "\<exists>rt R sm n.
           effective_retention cfg d = Inr rt
         \<and> forgetting_curve (of_int (interval d)) (stability d) = Inr R
         \<and> next_recall_stability (difficulty d) (stability d) R rating = Inr sm
         \<and> next_interval sm rt = Inr n
         \<and> d' = d\<lparr>interval := min (if rating = 1 then 1 else n) interval_cap,
                  stability := (if rating = 1 then max (sm * 0.6) 0.1 else sm),
                  difficulty := next_difficulty (difficulty d) rating,
                  next_review := local_day now + min (if rating = 1 then 1 else n) interval_cap\<rparr>"
  using assms
  by (auto simp: update_question_metrics_def Let_def split: sum.splits)

lemma update_question_metrics_total:
  assumes "effective_retention cfg d = Inr rt" "2 powr (- 200) \<le> rt"
    "2 powr (- 100) \<le> stability d" "stability d \<le> 2 ^ 400"
    "1 \<le> difficulty d" "difficulty d \<le> 10" "0 \<le> interval d"
  shows "\<exists>d'. update_question_metrics cfg now d rating = Inr d'"
proof -
  have st: "0 < stability d" using assms(3) by (smt (verit) powr_gt_zero)
  have el: "(0::real) \<le> of_int (interval d)" using assms(7) by simp
  let ?R = "(1 + FACTOR * of_int (interval d) / stability d) powr DECAY"
  have R: "forgetting_curve (of_int (interval d)) (stability d) = Inr (Some ?R)"
    by (rule forgetting_curve_eq [OF st el])
  obtain sm where
    sm: "next_recall_stability (difficulty d) (stability d) (Some ?R) rating = Inr sm"
    and b: "0 \<le> sm" "sm \<le> 2 ^ 500"
    using next_recall_stability_bound [OF assms(3,4,5,6) forgetting_curve_range [OF st el]]
    by blast
  have "\<bar>sm\<bar> \<le> 2 ^ 500" using b by simp
  then obtain n where n: "next_interval sm rt = Inr n"
    using next_interval_returns [OF _ assms(2)] by blast
  show ?thesis
    by (simp add: update_question_metrics_def Let_def assms(1) R sm n)
qed

lemma update_question_metrics_outcomes:
  assumes "effective_retention cfg d = Inr rt" "0 < rt" "0 < stability d" "0 \<le> interval d"
  shows "(\<exists>d'. update_question_metrics cfg now d rating = Inr d')
         \<or> update_question_metrics cfg now d rating = Inl OverflowError
         \<or> update_question_metrics cfg now d rating = Inl ValueError"
proof -
  have el: "(0::real) \<le> of_int (interval d)" using assms(4) by simp
  let ?R = "(1 + FACTOR * of_int (interval d) / stability d) powr DECAY"
  have R: "forgetting_curve (of_int (interval d)) (stability d) = Inr (Some ?R)"
    by (rule forgetting_curve_eq [OF assms(3) el])
  obtain sm where
    sm: "next_recall_stability (difficulty d) (stability d) (Some ?R) rating = Inr sm"
    using next_recall_stability_eq [OF assms(3)] by simp
  from next_interval_outcomes_any [OF assms(2), of sm] show ?thesis
    by (auto simp: update_question_metrics_def Let_def assms(1) R sm)
qed

lemma retention_rate_append:
  "retention_rate (rs @ [x]) =
     Inr (of_int (sum_list (map (\<lambda>r. if 4 \<le> snd r then 5 else snd r) (rs @ [x])))
          / of_int (5 * int (length (rs @ [x]))))"
proof -
  have "sum_list (map (\<lambda>r. if 4 \<le> snd r then 5 else snd r) (filter (\<lambda>r. snd r \<noteq> 0) ys))
          = sum_list (map (\<lambda>r. if 4 \<le> snd r then 5 else snd r) ys)" for ys :: "(day \<times> int) list"
    by (induction ys) auto
  then show ?thesis
    by (simp add: retention_rate_def float_div_def mult.commute del: filter_append map_append)
qed

lemma review_single_question_Inr:
  assumes "review_single_question cfg d today ans rating t now expl = Inr (True, d')"
  shows "\<exists>rate d5.
           retention_rate (ratings d @ [(today, rating)]) = Inr rate
         \<and> update_question_metrics cfg now
              (d\<lparr>ratings := ratings d @ [(today, rating)],
                 current_retention_rate := Some rate,
                 solving_time := solving_time d @ [(today, t)],
                 average_time := calculate_average_time (solving_time d @ [(today, t)])\<rparr>)
              rating = Inr d5
         \<and> d' = d5\<lparr>feynman := expl, last_reviewed := today\<rparr>"
  using assms
  by (auto simp: review_single_question_def Let_def split: if_splits sum.splits)

lemma effective_retention_cong:
  "company_tags d1 = company_tags d2 \<Longrightarrow> retention_factor d1 = retention_factor d2
   \<Longrightarrow> effective_retention cfg d1 = effective_retention cfg d2"
  by (auto simp: effective_retention_def get_company_tags_def split: option.splits)

lemma review_single_question_total:
  assumes "CHR ''n'' \<notin> set ans" "effective_retention cfg d = Inr rt" "2 powr (- 200) \<le> rt"
    "2 powr (- 100) \<le> stability d" "stability d \<le> 2 ^ 400"
    "1 \<le> difficulty d" "difficulty d \<le> 10" "0 \<le> interval d"
  shows "\<exists>d'. review_single_question cfg d today ans rating t now expl = Inr (True, d')"
proof -
  let ?rs = "ratings d @ [(today, rating)]"
  obtain rate where rate: "retention_rate ?rs = Inr rate"
    using retention_rate_append [of "ratings d" "(today, rating)"] by simp
  let ?d4 = "d\<lparr>ratings := ?rs, current_retention_rate := Some rate,
                solving_time := solving_time d @ [(today, t)],
                average_time := calculate_average_time (solving_time d @ [(today, t)])\<rparr>"
  have "effective_retention cfg ?d4 = Inr rt"
    using assms(2) effective_retention_cong [of ?d4 d cfg] by simp
  then obtain d5 where "update_question_metrics cfg now ?d4 rating = Inr d5"
    using update_question_metrics_total [of cfg ?d4 rt now rating] assms(3-8) by auto
  then show ?thesis
    using assms(1) rate by (simp add: review_single_question_def Let_def)
qed

lemma review_single_question_outcomes:
  assumes "CHR ''n'' \<notin> set ans" "effective_retention cfg d = Inr rt" "0 < rt"
    "0 < stability d" "0 \<le> interval d"
  shows "(\<exists>d'. review_single_question cfg d today ans rating t now expl = Inr (True, d'))
         \<or> review_single_question cfg d today ans rating t now expl = Inl OverflowError
         \<or> review_single_question cfg d today ans rating t now expl = Inl ValueError"
proof -
  let ?rs = "ratings d @ [(today, rating)]"
  obtain rate where rate: "retention_rate ?rs = Inr rate"
    using retention_rate_append [of "ratings d" "(today, rating)"] by simp
  let ?d4 = "d\<lparr>ratings := ?rs, current_retention_rate := Some rate,
                solving_time := solving_time d @ [(today, t)],
                average_time := calculate_average_time (solving_time d @ [(today, t)])\<rparr>"
  have "effective_retention cfg ?d4 = Inr rt"
    using assms(2) effective_retention_cong [of ?d4 d cfg] by simp
  from update_question_metrics_outcomes [OF this assms(3), of now rating] assms(4,5)
  show ?thesis
    using assms(1) rate by (auto simp: review_single_question_def Let_def)
qed

lemma review_single_question_fields:
  assumes "review_single_question cfg d today ans rating t now expl = Inr (True, d')"
  shows "\<exists>rt R sm n.
           effective_retention cfg d = Inr rt
         \<and> forgetting_curve (of_int (interval d)) (stability d) = Inr R
         \<and> next_recall_stability (difficulty d) (stability d) R rating = Inr sm
         \<and> next_interval sm rt = Inr n
         \<and> interval d' = min (if rating = 1 then 1 else n) interval_cap
         \<and> stability d' = (if rating = 1 then max (sm * 0.6) 0.1 else sm)
         \<and> difficulty d' = next_difficulty (difficulty d) rating
         \<and> next_review d' = local_day now + interval d'
         \<and> last_reviewed d' = today
         \<and> feynman d' = expl
         \<and> ratings d' = ratings d @ [(today, rating)]
         \<and> retention_rate (ratings d') = Inr (the (current_retention_rate d'))
         \<and> current_retention_rate d' \<noteq> None"
proof -
  from review_single_question_Inr [OF assms] obtain rate d5 where
    rate: "retention_rate (ratings d @ [(today, rating)]) = Inr rate" and
    upd: "update_question_metrics cfg now
              (d\<lparr>ratings := ratings d @ [(today, rating)],
                 current_retention_rate := Some rate,
                 solving_time := solving_time d @ [(today, t)],
                 average_time := calculate_average_time (solving_time d @ [(today, t)])\<rparr>)
              rating = Inr d5" and
    d': "d' = d5\<lparr>feynman := expl, last_reviewed := today\<rparr>"
    by blast
  from update_question_metrics_Inr [OF upd] obtain rt R sm n where
    "effective_retention cfg
       (d\<lparr>ratings := ratings d @ [(today, rating)],
          current_retention_rate := Some rate,
          solving_time := solving_time d @ [(today, t)],
          average_time := calculate_average_time (solving_time d @ [(today, t)])\<rparr>) = Inr rt"
    and R: "forgetting_curve (of_int (interval d)) (stability d) = Inr R"
    and sm: "next_recall_stability (difficulty d) (stability d) R rating = Inr sm"
    and n: "next_interval sm rt = Inr n"
    and d5: "d5 = d\<lparr>ratings := ratings d @ [(today, rating)],
                 current_retention_rate := Some rate,
                 solving_time := solving_time d @ [(today, t)],
                 average_time := calculate_average_time (solving_time d @ [(today, t)]),
                 interval := min (if rating = 1 then 1 else n) interval_cap,
                 stability := (if rating = 1 then max (sm * 0.6) 0.1 else sm),
                 difficulty := next_difficulty (difficulty d) rating,
                 next_review := local_day now + min (if rating = 1 then 1 else n) interval_cap\<rparr>"
    by auto
  then have rt: "effective_retention cfg d = Inr rt"
    using effective_retention_cong [of d "d\<lparr>ratings := ratings d @ [(today, rating)],
          current_retention_rate := Some rate,
          solving_time := solving_time d @ [(today, t)],
          average_time := calculate_average_time (solving_time d @ [(today, t)])\<rparr>" cfg]
    by simp
  show ?thesis
    using rt R sm n rate by (simp add: d' d5)
qed

lemma effective_retention_prep_untagged:
  assumes "COMPANY_PREP_MODE cfg" "COMPANY_PREP_TARGET cfg = Some target"
    "target \<notin> set (get_company_tags d)"
  shows "effective_retention cfg d = Inl AttributeError"
  using assms by (simp add: effective_retention_def)

lemma effective_retention_otherwise:
  assumes "\<not> COMPANY_PREP_MODE cfg \<or>
           (COMPANY_PREP_TARGET cfg = Some target \<and> target \<in> set (get_company_tags d))"
  shows "effective_retention cfg d = Inr (retention_factor d)"
  using assms by (auto simp: effective_retention_def)

lemma review_same_day:
  assumes "review_single_question cfg d today ans rating t now expl = Inr (True, d')"
  shows "next_review d' = local_day now + interval d' \<and> last_reviewed d' = today
         \<and> (local_day now = today \<longrightarrow> next_review d' = last_reviewed d' + interval d')"
  using review_single_question_fields [OF assms] by auto

section \<open>The company preparation mode\<close>

text \<open>
  Claim C1. With the company preparation mode active and an item whose company tags do
  not hold the target, the retention that reaches \<open>next_interval\<close> should be the stored
  one times the preparation factor. The code reads the factor as an attribute of the
  \<^verbatim>\<open>config\<close> dictionary and raises AttributeError there: for the item tagged Meta and the
  target Google, the retention, the update and the whole review raise, whatever
  the rating. (In every other case the stored retention is passed unchanged:
  \<open>effective_retention_otherwise\<close>.)
\<close>

theorem prep_mode_untagged_raises:
  "effective_retention prep_google new_item = Inl AttributeError
   \<and> update_question_metrics prep_google 8740800 new_item 3 = Inl AttributeError
   \<and> review_single_question prep_google new_item 101 ''yes'' 3 12 8740800 ''hash map''
       = Inl AttributeError"
proof -
  have e: "effective_retention prep_google d = Inl AttributeError"
    if "company_tags d = Some [''Meta'']" for d
    using that by (simp add: effective_retention_def prep_google_def get_company_tags_def)
  have u: "update_question_metrics prep_google now d r = Inl AttributeError"
    if "company_tags d = Some [''Meta'']" for d now r
    by (simp add: update_question_metrics_def Let_def e [OF that])
  have tags: "company_tags new_item = Some [''Meta'']" by (simp add: new_item_def)
  have rate: "retention_rate (ratings new_item @ [(101, 3)]) = Inr (3 / 5)"
    by (simp add: retention_rate_def float_div_def new_item_def)
  show ?thesis
    by (simp add: e u tags review_single_question_def Let_def rate)
qed

section \<open>The dates of a review\<close>

text \<open>
  Claim C2. After a review the next review date should be the last reviewed date plus the
  interval. The last reviewed date is the \<open>today\<close> computed when the session started,
  while the next review date is computed from a fresh reading of the clock: a review of
  the session of day 101 that is rated after local midnight, on day 102, with rating 1
  stores last reviewed 101, interval 1 and next review 103. (When both readings fall on
  the same local day the dates agree: \<open>review_same_day\<close>.)
\<close>

theorem review_across_midnight:
  "local_day 8827200 = 102 \<and>
   (\<exists>d'. review_single_question prep_off new_item 101 ''yes'' 1 12 8827200 ''hash map''
            = Inr (True, d')
        \<and> last_reviewed d' = 101 \<and> interval d' = 1 \<and> next_review d' = 103)"
proof -
  have day: "local_day 8827200 = 102" by (simp add: local_day_def)
  have er: "effective_retention prep_off new_item = Inr 0.85"
    by (simp add: effective_retention_def prep_off_def new_item_def)
  have "\<exists>d'. review_single_question prep_off new_item 101 ''yes'' 1 12 8827200 ''hash map''
            = Inr (True, d')"
    by (rule review_single_question_total [OF _ er])
      (simp_all add: new_item_def w_nth powr_minus)
  then obtain d' where
    d': "review_single_question prep_off new_item 101 ''yes'' 1 12 8827200 ''hash map''
            = Inr (True, d')" ..
  from review_single_question_fields [OF d'] have
    "last_reviewed d' = 101" "interval d' = 1" "next_review d' = local_day 8827200 + interval d'"
    by (auto simp: interval_cap_def)
  then show ?thesis using d' day by simp
qed

section \<open>The override for the rating 1\<close>

text \<open>
  Claim C3. Every review with rating 1 that is recorded leaves the interval at exactly 1
  and the stability at \<open>max (s * 0.6) 0.1\<close>, where \<open>s\<close> is what \<open>next_recall_stability\<close>
  computes from the difficulty, stability and interval before the update; and a review
  that is not declined, of an item with a positive retention, a positive stability and
  an interval that is not negative, is recorded or raises OverflowError or ValueError
  (from \<open>next_interval\<close>); it is recorded whenever the retention is at least
  \<open>2 powr (-200)\<close>, the stability lies between \<open>2 powr (-100)\<close> and \<open>2 ^ 400\<close> and the
  difficulty between 1 and 10, which keeps \<open>next_interval\<close> inside the range of the
  doubles.
\<close>

theorem review_rating_one:
  "(review_single_question cfg d today ans 1 t now expl = Inr (True, d') \<longrightarrow>
      interval d' = 1
      \<and> (\<exists>R sm. forgetting_curve (of_int (interval d)) (stability d) = Inr R
            \<and> next_recall_stability (difficulty d) (stability d) R 1 = Inr sm
            \<and> stability d' = max (sm * 0.6) 0.1))
   \<and> (CHR ''n'' \<notin> set ans \<and> effective_retention cfg d = Inr rt \<and> 0 < rt
        \<and> 0 < stability d \<and> 0 \<le> interval d \<longrightarrow>
      ((\<exists>d''. review_single_question cfg d today ans 1 t now expl = Inr (True, d''))
       \<or> review_single_question cfg d today ans 1 t now expl = Inl OverflowError
       \<or> review_single_question cfg d today ans 1 t now expl = Inl ValueError)
      \<and> (2 powr (- 200) \<le> rt \<and> 2 powr (- 100) \<le> stability d \<and> stability d \<le> 2 ^ 400
           \<and> 1 \<le> difficulty d \<and> difficulty d \<le> 10 \<longrightarrow>
          (\<exists>d''. review_single_question cfg d today ans 1 t now expl = Inr (True, d''))))"
proof (intro conjI impI)
  assume "review_single_question cfg d today ans 1 t now expl = Inr (True, d')"
  from review_single_question_fields [OF this] obtain R sm where
    "forgetting_curve (of_int (interval d)) (stability d) = Inr R"
    "next_recall_stability (difficulty d) (stability d) R 1 = Inr sm"
    "interval d' = min 1 interval_cap" "stability d' = max (sm * 0.6) 0.1"
    by auto
  then show "interval d' = 1" and
    "\<exists>R sm. forgetting_curve (of_int (interval d)) (stability d) = Inr R
            \<and> next_recall_stability (difficulty d) (stability d) R 1 = Inr sm
            \<and> stability d' = max (sm * 0.6) 0.1"
    by (auto simp: interval_cap_def)
next
  assume "CHR ''n'' \<notin> set ans \<and> effective_retention cfg d = Inr rt \<and> 0 < rt
        \<and> 0 < stability d \<and> 0 \<le> interval d"
  then show "(\<exists>d''. review_single_question cfg d today ans 1 t now expl = Inr (True, d''))
       \<or> review_single_question cfg d today ans 1 t now expl = Inl OverflowError
       \<or> review_single_question cfg d today ans 1 t now expl = Inl ValueError"
    using review_single_question_outcomes [of ans cfg d rt today 1 t now expl] by blast
next
  assume "CHR ''n'' \<notin> set ans \<and> effective_retention cfg d = Inr rt \<and> 0 < rt
        \<and> 0 < stability d \<and> 0 \<le> interval d"
    and "2 powr (- 200) \<le> rt \<and> 2 powr (- 100) \<le> stability d \<and> stability d \<le> 2 ^ 400
           \<and> 1 \<le> difficulty d \<and> difficulty d \<le> 10"
  then show "\<exists>d''. review_single_question cfg d today ans 1 t now expl = Inr (True, d'')"
    using review_single_question_total [of ans cfg d rt today 1 t now expl] by blast
qed

theorem review_rating_one_witness:
  "\<exists>d'. review_single_question prep_off new_item 101 ''yes'' 1 12 8740800 ''hash map''
            = Inr (True, d')
      \<and> interval d' = 1
      \<and> (\<exists>R sm. forgetting_curve 1 2.5 = Inr R
            \<and> next_recall_stability 5 2.5 R 1 = Inr sm
            \<and> stability d' = max (sm * 0.6) 0.1)"
proof -
  have f: "interval new_item = 1" "stability new_item = 2.5" "difficulty new_item = 5"
    by (simp_all add: new_item_def w_nth)
  have pre: "CHR ''n'' \<notin> set ''yes'' \<and> effective_retention prep_off new_item = Inr 0.85
      \<and> (0::real) < 0.85 \<and> 0 < stability new_item \<and> 0 \<le> interval new_item
      \<and> 2 powr (- 200) \<le> (0.85::real)
      \<and> 2 powr (- 100) \<le> stability new_item \<and> stability new_item \<le> 2 ^ 400
      \<and> 1 \<le> difficulty new_item \<and> difficulty new_item \<le> 10"
    by (simp add: effective_retention_def prep_off_def new_item_def w_nth powr_minus)
  note inst = review_rating_one [where cfg = prep_off and d = new_item and today = 101
      and ans = "''yes''" and t = 12 and now = 8740800 and expl = "''hash map''" and rt = "0.85"]
  from inst pre obtain d'' where
    d'': "review_single_question prep_off new_item 101 ''yes'' 1 12 8740800 ''hash map''
            = Inr (True, d'')"
    by blast
  from inst [where d' = d''] d'' have
    "interval d'' = 1
      \<and> (\<exists>R sm. forgetting_curve (of_int (interval new_item)) (stability new_item) = Inr R
            \<and> next_recall_stability (difficulty new_item) (stability new_item) R 1 = Inr sm
            \<and> stability d'' = max (sm * 0.6) 0.1)"
    by blast
  then show ?thesis using d'' by (auto simp: f)
qed

section \<open>The observed retention rate\<close>

text \<open>
  Claim C8. A recorded review has appended \<open>(today, rating)\<close> to the rating history, and
  the observed retention rate is the sum over the whole history of 5 for a rating of at
  least 4 and of the rating itself otherwise, divided by 5 times the number of records;
  and a review that is not declined, of an item with a positive retention, a positive
  stability and an interval that is not negative, is recorded or raises OverflowError or
  ValueError (from \<open>next_interval\<close>); it is recorded whenever the retention is at least
  \<open>2 powr (-200)\<close>, the stability lies between \<open>2 powr (-100)\<close> and \<open>2 ^ 400\<close> and the
  difficulty between 1 and 10, which keeps \<open>next_interval\<close> inside the range of the
  doubles.
\<close>

theorem review_retention_rate:
  "(review_single_question cfg d today ans rating t now expl = Inr (True, d') \<longrightarrow>
      ratings d' = ratings d @ [(today, rating)]
      \<and> current_retention_rate d' =
          Some (of_int (\<Sum>r\<leftarrow>ratings d'. if 4 \<le> snd r then 5 else snd r)
                / of_int (5 * int (length (ratings d')))))
   \<and> (CHR ''n'' \<notin> set ans \<and> effective_retention cfg d = Inr rt \<and> 0 < rt
        \<and> 0 < stability d \<and> 0 \<le> interval d \<longrightarrow>
      ((\<exists>d''. review_single_question cfg d today ans rating t now expl = Inr (True, d''))
       \<or> review_single_question cfg d today ans rating t now expl = Inl OverflowError
       \<or> review_single_question cfg d today ans rating t now expl = Inl ValueError)
      \<and> (2 powr (- 200) \<le> rt \<and> 2 powr (- 100) \<le> stability d \<and> stability d \<le> 2 ^ 400
           \<and> 1 \<le> difficulty d \<and> difficulty d \<le> 10 \<longrightarrow>
          (\<exists>d''. review_single_question cfg d today ans rating t now expl = Inr (True, d''))))"
proof (intro conjI impI)
  assume "review_single_question cfg d today ans rating t now expl = Inr (True, d')"
  from review_single_question_fields [OF this] have
    r: "ratings d' = ratings d @ [(today, rating)]" and
    c: "retention_rate (ratings d') = Inr (the (current_retention_rate d'))" and
    n: "current_retention_rate d' \<noteq> None"
    by auto
  show "ratings d' = ratings d @ [(today, rating)]" by (rule r)
  have "retention_rate (ratings d') =
     Inr (of_int (\<Sum>r\<leftarrow>ratings d'. if 4 \<le> snd r then 5 else snd r)
          / of_int (5 * int (length (ratings d'))))"
    unfolding r by (rule retention_rate_append)
  with c n show "current_retention_rate d' =
          Some (of_int (\<Sum>r\<leftarrow>ratings d'. if 4 \<le> snd r then 5 else snd r)
                / of_int (5 * int (length (ratings d'))))"
    by auto
next
  assume "CHR ''n'' \<notin> set ans \<and> effective_retention cfg d = Inr rt \<and> 0 < rt
        \<and> 0 < stability d \<and> 0 \<le> interval d"
  then show "(\<exists>d''. review_single_question cfg d today ans rating t now expl = Inr (True, d''))
       \<or> review_single_question cfg d today ans rating t now expl = Inl OverflowError
       \<or> review_single_question cfg d today ans rating t now expl = Inl ValueError"
    using review_single_question_outcomes [of ans cfg d rt today rating t now expl] by blast
next
  assume "CHR ''n'' \<notin> set ans \<and> effective_retention cfg d = Inr rt \<and> 0 < rt
        \<and> 0 < stability d \<and> 0 \<le> interval d"
    and "2 powr (- 200) \<le> rt \<and> 2 powr (- 100) \<le> stability d \<and> stability d \<le> 2 ^ 400
           \<and> 1 \<le> difficulty d \<and> difficulty d \<le> 10"
  then show "\<exists>d''. review_single_question cfg d today ans rating t now expl = Inr (True, d'')"
    using review_single_question_total [of ans cfg d rt today rating t now expl] by blast
qed

theorem review_retention_rate_witness:
  "\<exists>d'. review_single_question prep_off (new_item\<lparr>ratings := [(99, 4), (100, 2)]\<rparr>)
            101 ''yes'' 3 12 8740800 ''hash map'' = Inr (True, d')
      \<and> ratings d' = [(99, 4), (100, 2), (101, 3)]
      \<and> current_retention_rate d' = Some (10 / 15)"
proof -
  let ?d = "new_item\<lparr>ratings := [(99, 4), (100, 2)]\<rparr>"
  have pre: "CHR ''n'' \<notin> set ''yes'' \<and> effective_retention prep_off ?d = Inr 0.85
      \<and> (0::real) < 0.85 \<and> 0 < stability ?d \<and> 0 \<le> interval ?d
      \<and> 2 powr (- 200) \<le> (0.85::real)
      \<and> 2 powr (- 100) \<le> stability ?d \<and> stability ?d \<le> 2 ^ 400
      \<and> 1 \<le> difficulty ?d \<and> difficulty ?d \<le> 10"
    by (simp add: effective_retention_def prep_off_def new_item_def w_nth powr_minus)
  note inst = review_retention_rate [where cfg = prep_off and d = ?d and today = 101
      and ans = "''yes''" and rating = 3 and t = 12 and now = 8740800
      and expl = "''hash map''" and rt = "0.85"]
  from inst pre obtain d'' where
    d'': "review_single_question prep_off ?d 101 ''yes'' 3 12 8740800 ''hash map''
            = Inr (True, d'')"
    by blast
  from inst [where d' = d''] d'' have
    "ratings d'' = ratings ?d @ [(101, 3)]
      \<and> current_retention_rate d'' =
          Some (of_int (\<Sum>r\<leftarrow>ratings d''. if 4 \<le> snd r then 5 else snd r)
                / of_int (5 * int (length (ratings d''))))"
    by blast
  then have "ratings d'' = [(99, 4), (100, 2), (101, 3)]
      \<and> current_retention_rate d'' = Some (10 / 15)"
    by (simp add: new_item_def)
  then show ?thesis using d'' by blast
qed

section \<open>The listing of due items\<close>

lemma sort_key_of_Some:
  "difficulty_order (problem_type (snd q)) \<noteq> None \<Longrightarrow>
   difficulty_order (problem_type (snd q)) = Some (sort_key_of q)"
  by (auto simp: sort_key_of_def)

lemma set_filtered_questions:
  "set (filtered_questions company today qs) =
     {q \<in> set qs. (\<forall>c. company = Some c \<longrightarrow> c \<in> set (get_company_tags (snd q)))
                  \<and> (next_review (snd q) \<le> today \<or> last_reviewed (snd q) = today)}"
  by (auto simp: filtered_questions_def is_due_def split: option.splits)

lemma difficulty_order_examples:
  "difficulty_order ''Arrays'' = Some 1" "difficulty_order ''Hashing'' = Some 2"
  "difficulty_order ''DP'' = Some 17"
  by (simp_all add: difficulty_order_def)

text \<open>
  Claim C7. For a collection whose due items all have a problem type of the table, the
  listing is computed, and it holds exactly the items whose next review is not after
  today or that were last reviewed today (and, under a company filter, that carry the
  company among their tags), each as often as the collection holds it; it is ordered by
  the ordinal of the problem type, items of equal ordinal in the order of the
  collection; and an item of it whose next review is after today was reviewed today.
\<close>

theorem sorted_questions_due:
  assumes "\<forall>q \<in> set qs. is_due company today q \<longrightarrow>
             problem_type (snd q) \<in> dom difficulty_order"
  shows "\<exists>r. sorted_questions company today qs = Inr r
     \<and> mset r = mset (filter (is_due company today) qs)
     \<and> set r = {q \<in> set qs.
                  (\<forall>c. company = Some c \<longrightarrow> c \<in> set (get_company_tags (snd q)))
                  \<and> (next_review (snd q) \<le> today \<or> last_reviewed (snd q) = today)}
     \<and> (\<forall>q \<in> set r. difficulty_order (problem_type (snd q)) = Some (sort_key_of q))
     \<and> sorted (map sort_key_of r)
     \<and> (\<forall>k. filter (\<lambda>q. sort_key_of q = k) r
              = filter (\<lambda>q. sort_key_of q = k) (filter (is_due company today) qs))
     \<and> (\<forall>q \<in> set r. today < next_review (snd q) \<longrightarrow> last_reviewed (snd q) = today)"
proof -
  let ?fq = "filtered_questions company today qs"
  let ?r = "sort_key sort_key_of ?fq"
  have ok: "\<forall>q \<in> set ?fq. difficulty_order (problem_type (snd q)) \<noteq> None"
    using assms by (auto simp: filtered_questions_def)
  then have res: "sorted_questions company today qs = Inr ?r"
    by (simp add: sorted_questions_def Let_def)
  have m: "mset ?r = mset (filter (is_due company today) qs)"
    by (simp add: filtered_questions_def)
  have s: "set ?r = {q \<in> set qs.
                  (\<forall>c. company = Some c \<longrightarrow> c \<in> set (get_company_tags (snd q)))
                  \<and> (next_review (snd q) \<le> today \<or> last_reviewed (snd q) = today)}"
    using set_filtered_questions [of company today qs] by simp
  have keys: "\<forall>q \<in> set ?r. difficulty_order (problem_type (snd q)) = Some (sort_key_of q)"
    using ok by (simp add: sort_key_of_Some)
  have srt: "sorted (map sort_key_of ?r)" by (rule sorted_sort_key)
  have stable: "\<forall>k. filter (\<lambda>q. sort_key_of q = k) ?r
              = filter (\<lambda>q. sort_key_of q = k) (filter (is_due company today) qs)"
    by (simp add: sort_key_stable filtered_questions_def)
  have due: "\<forall>q \<in> set ?r. today < next_review (snd q) \<longrightarrow> last_reviewed (snd q) = today"
    by (auto simp: filtered_questions_def is_due_def)
  from res m s keys srt stable due show ?thesis by blast
qed

theorem sorted_questions_due_witness:
  "sorted_questions None 101 example_questions =
     Inr [(''Two Sum'', new_item),
          (''Contains Duplicate'', new_item\<lparr>last_reviewed := 101, next_review := 103\<rparr>),
          (''Coin Change'', new_item\<lparr>problem_type := ''DP''\<rparr>)]
   \<and> map (\<lambda>q. difficulty_order (problem_type (snd q))) example_questions
       = [Some 17, Some 1, Some 2, Some 1]"
proof -
  have pt: "map (\<lambda>q. difficulty_order (problem_type (snd q))) example_questions
       = [Some 17, Some 1, Some 2, Some 1]"
    by (simp add: example_questions_def new_item_def difficulty_order_examples)
  have hyp: "\<forall>q \<in> set example_questions. is_due None 101 q \<longrightarrow>
             problem_type (snd q) \<in> dom difficulty_order"
    by (simp add: example_questions_def new_item_def difficulty_order_examples dom_def)
  have fq: "filter (is_due None 101) example_questions =
      [(''Coin Change'', new_item\<lparr>problem_type := ''DP''\<rparr>),
       (''Two Sum'', new_item),
       (''Contains Duplicate'', new_item\<lparr>last_reviewed := 101, next_review := 103\<rparr>)]"
    by (simp add: example_questions_def is_due_def new_item_def)
  have k: "sort_key_of (''Coin Change'', new_item\<lparr>problem_type := ''DP''\<rparr>) = 17"
    "sort_key_of (''Two Sum'', new_item) = 1"
    "sort_key_of (''Contains Duplicate'', new_item\<lparr>last_reviewed := 101, next_review := 103\<rparr>) = 1"
    by (simp_all add: sort_key_of_def new_item_def difficulty_order_examples)
  from sorted_questions_due [OF hyp] obtain r where
    r: "sorted_questions None 101 example_questions = Inr r"
    and srt: "sorted (map sort_key_of r)"
    and st: "\<forall>k. filter (\<lambda>q. sort_key_of q = k) r
              = filter (\<lambda>q. sort_key_of q = k) (filter (is_due None 101) example_questions)"
    and ms: "mset r = mset (filter (is_due None 101) example_questions)"
    by blast
  have "r = sort_key sort_key_of (filter (is_due None 101) example_questions)"
    using r hyp by (auto simp: sorted_questions_def filtered_questions_def Let_def split: if_splits)
  then have "r = [(''Two Sum'', new_item),
          (''Contains Duplicate'', new_item\<lparr>last_reviewed := 101, next_review := 103\<rparr>),
          (''Coin Change'', new_item\<lparr>problem_type := ''DP''\<rparr>)]"
    unfolding fq by (simp add: k)
  then show ?thesis using r pt by simp
qed

section \<open>Loading a malformed file\<close>

text \<open>Well-formed and ill-formed byte sequences, as the decoder sorts them.\<close>

lemma utf8_examples:
  "utf8_valid [0xE2, 0x82, 0xAC]" "\<not> utf8_valid [0xC0, 0x80]" "\<not> utf8_valid [0xED, 0xA0, 0x80]"
  "utf8_valid [0xF0, 0x9F, 0x98, 0x80]" "\<not> utf8_valid [0xF4, 0x90, 0x80, 0x80]" "\<not> utf8_valid [0xE2, 0x82]"
  by (simp_all add: continuation_def)

text \<open>
  What the load raises: UnicodeDecodeError for bytes that do not decode, and whatever the
  parser raises other than JSONDecodeError.
\<close>

lemma load_questions_raises:
  "load_questions json_loads file = Inl e \<longleftrightarrow>
     (\<exists>bytes. file = Some bytes
        \<and> ((\<not> utf8_valid bytes \<and> e = UnicodeDecodeError)
           \<or> (utf8_valid bytes \<and> json_loads bytes = Inl e \<and> e \<noteq> JSONDecodeError)))"
  by (auto simp: load_questions_def split: option.splits sum.splits if_splits)

text \<open>
  Claim C9, as stated, fails: a file that holds the single byte FF cannot be decoded, and
  the load raises UnicodeDecodeError, whatever the parser would do with a text.
\<close>

theorem load_questions_undecodable:
  "load_questions braces_loads (Some [0xFF]) = Inl UnicodeDecodeError"
  by (simp add: load_questions_def)

text \<open>
  Claim C9, amended. A missing file gives the empty collection. A file whose bytes decode
  as text and whose text the parser rejects with JSONDecodeError gives the empty
  collection, and one that parses gives its value, or the empty collection if that value
  is falsy: on a file that decodes, with a parser that returns or raises
  JSONDecodeError, the load raises nothing.
\<close>

theorem load_questions_outcomes:
  "(load_questions json_loads None = Inr (JObject []))
   \<and> (utf8_valid bytes \<and> json_loads bytes = Inl JSONDecodeError \<longrightarrow>
        load_questions json_loads (Some bytes) = Inr (JObject []))
   \<and> (utf8_valid bytes \<and> json_loads bytes = Inr v \<longrightarrow>
        load_questions json_loads (Some bytes) = Inr (if falsy v then JObject [] else v))"
  by (simp add: load_questions_def)

theorem load_questions_outcomes_witness:
  "utf8_valid [0x7B, 0x22] \<and> braces_loads [0x7B, 0x22] = Inl JSONDecodeError
   \<and> load_questions braces_loads (Some [0x7B, 0x22]) = Inr (JObject [])
   \<and> utf8_valid [0x7B, 0x7D] \<and> braces_loads [0x7B, 0x7D] = Inr (JObject [])
   \<and> load_questions braces_loads (Some [0x7B, 0x7D]) = Inr (JObject [])"
proof -
  have v: "utf8_valid [0x7B, 0x22]" "utf8_valid [0x7B, 0x7D]" by simp_all
  have r: "braces_loads [0x7B, 0x22] = Inl JSONDecodeError"
    "braces_loads [0x7B, 0x7D] = Inr (JObject [])"
    by (simp_all add: braces_loads_def)
  from load_questions_outcomes [of braces_loads "[0x7B, 0x22]"] v r
  have a: "load_questions braces_loads (Some [0x7B, 0x22]) = Inr (JObject [])" by blast
  from load_questions_outcomes [of braces_loads "[0x7B, 0x7D]" "JObject []"] v r
  have b: "load_questions braces_loads (Some [0x7B, 0x7D]) = Inr (JObject [])" by simp
  from v r a b show ?thesis by blast
qed


end
